theory Spec2Isabelle
  imports Complex_Main
begin

text \<open>
  A model of \<^verbatim>\<open>src/meteora_probe.ts\<close>, the script that asks a DLMM pool for a buy
  and a sell quote per USD trade size and reports the round-trip cost in basis points,
  with proofs of the properties its specification states. The pool SDK, bn.js and the
  JavaScript built-ins are modelled as far as the script uses them; what the SDK and
  the network answer is a parameter of the model.
\<close>

section \<open>JavaScript numbers\<close>

text \<open>
  The script \<^verbatim>\<open>src/meteora_probe.ts\<close> computes with JavaScript numbers. They are
  modelled as the reals extended by the three special values of IEEE 754 that the
  script can produce and test for (\<^verbatim>\<open>Number.isFinite\<close>, division by zero,
  \<^verbatim>\<open>Infinity - Infinity\<close>). Arithmetic on finite values is exact: the rounding of a
  binary64 result to 53 bits, overflow of a finite result to an infinity and the sign
  of zero are not modelled (zero behaves as \<^verbatim>\<open>+0\<close>).
\<close>

datatype jsnum = Fin real | PInf | NInf | NaN

fun isFinite :: "jsnum \<Rightarrow> bool" where
  "isFinite (Fin _) = True"
| "isFinite _ = False"

fun js_neg :: "jsnum \<Rightarrow> jsnum" where
  "js_neg (Fin a) = Fin (- a)"
| "js_neg PInf = NInf"
| "js_neg NInf = PInf"
| "js_neg NaN = NaN"

fun js_add :: "jsnum \<Rightarrow> jsnum \<Rightarrow> jsnum" where
  "js_add NaN _ = NaN"
| "js_add _ NaN = NaN"
| "js_add (Fin a) (Fin b) = Fin (a + b)"
| "js_add PInf NInf = NaN"
| "js_add NInf PInf = NaN"
| "js_add PInf _ = PInf"
| "js_add NInf _ = NInf"
| "js_add _ PInf = PInf"
| "js_add _ NInf = NInf"

definition js_sub :: "jsnum \<Rightarrow> jsnum \<Rightarrow> jsnum" where
  "js_sub x y = js_add x (js_neg y)"

text \<open>The sign of a product or quotient with an infinite operand.\<close>

definition signed_inf :: "bool \<Rightarrow> jsnum" where
  "signed_inf positive = (if positive then PInf else NInf)"

fun js_mul :: "jsnum \<Rightarrow> jsnum \<Rightarrow> jsnum" where
  "js_mul NaN _ = NaN"
| "js_mul _ NaN = NaN"
| "js_mul (Fin a) (Fin b) = Fin (a * b)"
| "js_mul (Fin a) PInf = (if a = 0 then NaN else signed_inf (0 < a))"
| "js_mul (Fin a) NInf = (if a = 0 then NaN else signed_inf (a < 0))"
| "js_mul PInf (Fin b) = (if b = 0 then NaN else signed_inf (0 < b))"
| "js_mul NInf (Fin b) = (if b = 0 then NaN else signed_inf (b < 0))"
| "js_mul PInf PInf = PInf"
| "js_mul NInf NInf = PInf"
| "js_mul PInf NInf = NInf"
| "js_mul NInf PInf = NInf"

text \<open>
  Division never throws in JavaScript: a nonzero finite value over zero is an infinity,
  \<^verbatim>\<open>0/0\<close> and \<^verbatim>\<open>Infinity/Infinity\<close> are \<^verbatim>\<open>NaN\<close>.
\<close>

fun js_div :: "jsnum \<Rightarrow> jsnum \<Rightarrow> jsnum" where
  "js_div NaN _ = NaN"
| "js_div _ NaN = NaN"
| "js_div (Fin a) (Fin b) =
     (if b = 0 then (if a = 0 then NaN else signed_inf (0 < a)) else Fin (a / b))"
| "js_div (Fin a) _ = Fin 0"
| "js_div PInf (Fin b) = signed_inf (0 \<le> b)"
| "js_div NInf (Fin b) = signed_inf (b < 0)"
| "js_div _ _ = NaN"

text \<open>Comparisons with \<^verbatim>\<open>NaN\<close> are false.\<close>

fun js_lt :: "jsnum \<Rightarrow> jsnum \<Rightarrow> bool" where
  "js_lt NaN _ = False"
| "js_lt _ NaN = False"
| "js_lt (Fin a) (Fin b) = (a < b)"
| "js_lt _ NInf = False"
| "js_lt PInf _ = False"
| "js_lt _ _ = True"

fun js_le :: "jsnum \<Rightarrow> jsnum \<Rightarrow> bool" where
  "js_le NaN _ = False"
| "js_le _ NaN = False"
| "js_le x y = (\<not> js_lt y x)"

text \<open>\<^verbatim>\<open>x || 0\<close> on a number: zero and \<^verbatim>\<open>NaN\<close> are falsy.\<close>

definition or_zero :: "jsnum \<Rightarrow> jsnum" where
  "or_zero x = (if x = NaN \<or> x = Fin 0 then Fin 0 else x)"

text \<open>\<^verbatim>\<open>Math.max(x, y)\<close>: \<^verbatim>\<open>NaN\<close> if either argument is.\<close>

definition Math_max :: "jsnum \<Rightarrow> jsnum \<Rightarrow> jsnum" where
  "Math_max x y = (if x = NaN \<or> y = NaN then NaN else if js_lt x y then y else x)"


section \<open>Strings\<close>

text \<open>
  Strings are lists of characters. The helpers follow the methods of
  \<^verbatim>\<open>String.prototype\<close> that the script calls, on ASCII text.
\<close>

definition is_ws :: "char \<Rightarrow> bool" where
  "is_ws c = (c = CHR '' '' \<or> (9 \<le> (of_char c :: nat) \<and> (of_char c :: nat) \<le> 13))"

definition trim :: "string \<Rightarrow> string" where
  "trim s = rev (dropWhile is_ws (rev (dropWhile is_ws s)))"

text \<open>\<^verbatim>\<open>s.includes(c)\<close> for a one-character pattern.\<close>

definition str_includes :: "string \<Rightarrow> char \<Rightarrow> bool" where
  "str_includes s c = (c \<in> set s)"

text \<open>\<^verbatim>\<open>s.split(sep)\<close> for a one-character separator: the empty string gives one empty part.\<close>

fun split :: "char \<Rightarrow> string \<Rightarrow> string list" where
  "split sep [] = [[]]"
| "split sep (c # cs) =
     (if c = sep then [] # split sep cs
      else (case split sep cs of [] \<Rightarrow> [[c]] | p # ps \<Rightarrow> (c # p) # ps))"

text \<open>\<^verbatim>\<open>parts.join(sep)\<close> on an array of strings.\<close>

fun join :: "char \<Rightarrow> string list \<Rightarrow> string" where
  "join sep [] = []"
| "join sep [p] = p"
| "join sep (p # q # ps) = p @ sep # join sep (q # ps)"

text \<open>\<^verbatim>\<open>s.replace(c, "")\<close> with a string pattern: only the first occurrence goes.\<close>

fun remove_first :: "char \<Rightarrow> string \<Rightarrow> string" where
  "remove_first c [] = []"
| "remove_first c (x # xs) = (if x = c then xs else x # remove_first c xs)"

text \<open>\<^verbatim>\<open>s.padStart(n, "0")\<close>.\<close>

definition padStart :: "string \<Rightarrow> int \<Rightarrow> string" where
  "padStart s n = replicate (nat n - length s) (CHR ''0'') @ s"

text \<open>\<^verbatim>\<open>s.slice(start, end)\<close> and \<^verbatim>\<open>s.slice(start)\<close>: a negative index counts from the end.\<close>

definition slice_index :: "string \<Rightarrow> int \<Rightarrow> nat" where
  "slice_index s i = (if i < 0 then nat (int (length s) + i) else min (nat i) (length s))"

definition slice :: "string \<Rightarrow> int \<Rightarrow> int \<Rightarrow> string" where
  "slice s i j = drop (slice_index s i) (take (slice_index s j) s)"

definition slice_from :: "string \<Rightarrow> int \<Rightarrow> string" where
  "slice_from s i = drop (slice_index s i) s"

subsection \<open>Decimal digits\<close>

definition is_digit :: "char \<Rightarrow> bool" where
  "is_digit c = (48 \<le> (of_char c :: nat) \<and> (of_char c :: nat) \<le> 57)"

definition digit_val :: "char \<Rightarrow> nat" where
  "digit_val c = of_char c - 48"

definition digits_val :: "string \<Rightarrow> nat" where
  "digits_val s = foldl (\<lambda>acc c. 10 * acc + digit_val c) 0 s"

definition digit_char :: "nat \<Rightarrow> char" where
  "digit_char n = (case drop n ''0123456789'' of c # rest \<Rightarrow> c | [] \<Rightarrow> CHR ''9'')"

text \<open>The decimal digits of a natural number, without leading zeros.\<close>

fun show_nat :: "nat \<Rightarrow> string" where
  "show_nat n = (if n < 10 then [digit_char n] else show_nat (n div 10) @ [digit_char (n mod 10)])"

declare show_nat.simps [simp del]

definition show_int :: "int \<Rightarrow> string" where
  "show_int i = (if i < 0 then CHR ''-'' # show_nat (nat (- i)) else show_nat (nat i))"

subsection \<open>\<^verbatim>\<open>Number(string)\<close>\<close>

text \<open>
  The conversion of a string to a number (StringToNumber of ECMA-262): surrounding
  white space is dropped, the empty string is 0, then a binary, octal or hexadecimal
  integer without sign, or a signed decimal literal with optional fraction and exponent,
  or a signed \<^verbatim>\<open>Infinity\<close>; everything else is \<^verbatim>\<open>NaN\<close>.
\<close>

definition radix_digit :: "char \<Rightarrow> nat" where
  "radix_digit c =
     (let k = (of_char c :: nat) in
      if 48 \<le> k \<and> k \<le> 57 then k - 48
      else if 97 \<le> k \<and> k \<le> 122 then k - 87
      else if 65 \<le> k \<and> k \<le> 90 then k - 55
      else 36)"

definition radix_val :: "nat \<Rightarrow> string \<Rightarrow> nat" where
  "radix_val r s = foldl (\<lambda>acc c. r * acc + radix_digit c) 0 s"

definition non_decimal :: "string \<Rightarrow> nat option" where
  "non_decimal s =
     (case s of
        z # m # ds \<Rightarrow>
          (let r = (if m = CHR ''x'' \<or> m = CHR ''X'' then 16
                    else if m = CHR ''o'' \<or> m = CHR ''O'' then 8
                    else if m = CHR ''b'' \<or> m = CHR ''B'' then 2 else (0::nat))
           in if z = CHR ''0'' \<and> r \<noteq> 0 \<and> ds \<noteq> [] \<and> list_all (\<lambda>c. radix_digit c < r) ds
              then Some (radix_val r ds) else None)
      | _ \<Rightarrow> None)"

definition parse_exponent :: "string \<Rightarrow> int option" where
  "parse_exponent r =
     (case r of
        [] \<Rightarrow> Some 0
      | c # t \<Rightarrow>
          if c = CHR ''e'' \<or> c = CHR ''E'' then
            (let neg = (t \<noteq> [] \<and> hd t = CHR ''-'');
                 ds = (if t \<noteq> [] \<and> (hd t = CHR ''-'' \<or> hd t = CHR ''+'') then tl t else t)
             in if ds \<noteq> [] \<and> list_all is_digit ds
                then Some (if neg then - int (digits_val ds) else int (digits_val ds))
                else None)
          else None)"

definition scale10 :: "real \<Rightarrow> int \<Rightarrow> real" where
  "scale10 m e = (if 0 \<le> e then m * 10 ^ nat e else m / 10 ^ nat (- e))"

definition parse_unsigned_decimal :: "string \<Rightarrow> jsnum" where
  "parse_unsigned_decimal s =
     (if s = ''Infinity'' then PInf
      else
        (let ip = takeWhile is_digit s;
             r1 = dropWhile is_digit s;
             has_dot = (r1 \<noteq> [] \<and> hd r1 = CHR ''.'');
             fp = (if has_dot then takeWhile is_digit (tl r1) else []);
             r2 = (if has_dot then dropWhile is_digit (tl r1) else r1)
         in if ip = [] \<and> fp = [] then NaN
            else (case parse_exponent r2 of
                    None \<Rightarrow> NaN
                  | Some e \<Rightarrow>
                      Fin (scale10 (real (digits_val ip) + real (digits_val fp) / 10 ^ length fp) e))))"

definition parse_decimal :: "string \<Rightarrow> jsnum" where
  "parse_decimal s =
     (case s of
        [] \<Rightarrow> NaN
      | c # t \<Rightarrow>
          if c = CHR ''-'' then js_neg (parse_unsigned_decimal t)
          else if c = CHR ''+'' then parse_unsigned_decimal t
          else parse_unsigned_decimal s)"

definition Number_of_string :: "string \<Rightarrow> jsnum" where
  "Number_of_string s0 =
     (let s = trim s0 in
      if s = [] then Fin 0
      else (case non_decimal s of
              Some n \<Rightarrow> Fin (real n)
            | None \<Rightarrow> parse_decimal s))"

section \<open>Errors\<close>

text \<open>The exceptions the script or the libraries under it throw, as values.\<close>

datatype error =
    BadSizes                  \<comment> \<open>\<^verbatim>\<open>Error("Bad --sizes A:B:S")\<close>\<close>
  | UnsupportedSizes string   \<comment> \<open>\<^verbatim>\<open>Error("Unsupported --sizes format: ...")\<close>\<close>
  | RangeError                \<comment> \<open>\<^verbatim>\<open>toFixed\<close> with digits outside 0..100\<close>
  | InvalidCharacter          \<comment> \<open>bn.js: a character that is no digit\<close>
  | AssertionFailed           \<comment> \<open>bn.js: a number that is no safe integer\<close>
  | CannotCoerce              \<comment> \<open>\<^verbatim>\<open>Error("Cannot coerce to BN: ...")\<close>\<close>
  | InvalidMid                \<comment> \<open>\<^verbatim>\<open>Error("Invalid mid from SOL/USDC pool")\<close>\<close>
  | TypeError                 \<comment> \<open>a property or method of \<^verbatim>\<open>undefined\<close> or \<^verbatim>\<open>null\<close>\<close>
  | SdkError string           \<comment> \<open>anything the SDK or the network throws\<close>

section \<open>Trade sizes\<close>

text \<open>
  The loop \<^verbatim>\<open>for (let v = a; v <= b; v += s) out.push(v)\<close> of \<^verbatim>\<open>parseSizes\<close>. It is
  entered only behind the guard that \<open>a\<close>, \<open>b\<close>, \<open>s\<close> are finite and \<open>0 < s\<close>; the
  step's sign is part of the loop condition here so that the function is total.
\<close>

function range_loop :: "real \<Rightarrow> real \<Rightarrow> real \<Rightarrow> real list \<Rightarrow> real list" where
  "range_loop v b s out = (if 0 < s \<and> v \<le> b then range_loop (v + s) b s (out @ [v]) else out)"
  by pat_completeness auto
termination
proof (relation "measure (\<lambda>(v, b, s, out). nat (\<lfloor>(b - v) / s\<rfloor> + 1))", goal_cases)
  case 1
  show ?case by simp
next
  case (2 v b s out)
  then have s: "0 < s" and vb: "v \<le> b" by simp_all
  have "(b - (v + s)) / s = (b - v) / s - 1"
    using s by (simp add: field_simps)
  then have step: "\<lfloor>(b - (v + s)) / s\<rfloor> = \<lfloor>(b - v) / s\<rfloor> - 1"
    by simp
  have "0 \<le> (b - v) / s"
    using s vb by simp
  then have "0 \<le> \<lfloor>(b - v) / s\<rfloor>"
    by simp
  with step show ?case
    by simp
qed

declare range_loop.simps [simp del]

text \<open>\<^verbatim>\<open>parseSizes\<close>. A part that \<^verbatim>\<open>split\<close> did not produce is \<^verbatim>\<open>undefined\<close>, whose number is \<^verbatim>\<open>NaN\<close>.\<close>

definition part_number :: "string list \<Rightarrow> nat \<Rightarrow> jsnum" where
  "part_number parts i = (if i < length parts then Number_of_string (parts ! i) else NaN)"

definition finite_positive :: "jsnum \<Rightarrow> bool" where
  "finite_positive n = (isFinite n \<and> js_lt (Fin 0) n)"

definition parseSizes :: "string \<Rightarrow> error + jsnum list" where
  "parseSizes sizesArg =
     (if str_includes sizesArg (CHR '':'') then
        (let parts = split (CHR '':'') sizesArg;
             a = part_number parts 0; b = part_number parts 1; s = part_number parts 2
         in case (a, b, s) of
              (Fin ra, Fin rb, Fin rs) \<Rightarrow>
                if js_le s (Fin 0) \<or> js_lt b a then Inl BadSizes
                else Inr (map Fin (range_loop ra rb rs []))
            | _ \<Rightarrow> Inl BadSizes)
      else if str_includes sizesArg (CHR '','') then
        Inr (filter finite_positive
               (map (\<lambda>x. Number_of_string (trim x)) (split (CHR '','') sizesArg)))
      else
        (let single = Number_of_string (trim sizesArg)
         in if finite_positive single then Inr [single]
            else Inl (UnsupportedSizes sizesArg)))"


section \<open>Values of the SDK\<close>

text \<open>
  What the external SDK hands to the script is untyped (\<^verbatim>\<open>any\<close>). The values the
  script can tell apart: \<^verbatim>\<open>undefined\<close>, \<^verbatim>\<open>null\<close>, booleans, numbers, strings,
  \<^verbatim>\<open>bigint\<close>s, bn.js integers, public keys (by their base58 text) and plain objects
  with named properties.
\<close>

datatype jsval =
    JUndefined
  | JNull
  | JBool bool
  | JNum jsnum
  | JStr string
  | JBigInt int
  | JBN int
  | JPubkey string
  | JObj "(string \<times> jsval) list"

definition nullish :: "jsval \<Rightarrow> bool" where
  "nullish v = (v = JUndefined \<or> v = JNull)"

text \<open>\<^verbatim>\<open>q?.name\<close>: \<^verbatim>\<open>undefined\<close> unless \<open>q\<close> is an object that has the property.\<close>

fun get_prop :: "jsval \<Rightarrow> string \<Rightarrow> jsval" where
  "get_prop (JObj fs) k = (case map_of fs k of Some v \<Rightarrow> v | None \<Rightarrow> JUndefined)"
| "get_prop _ k = JUndefined"

text \<open>
  \<^verbatim>\<open>a ?? b ?? ... ?? z\<close>: the first operand that is neither \<^verbatim>\<open>undefined\<close> nor
  \<^verbatim>\<open>null\<close>, and the last operand when there is none.
\<close>

fun first_defined :: "jsval list \<Rightarrow> jsval" where
  "first_defined [] = JUndefined"
| "first_defined [v] = v"
| "first_defined (v # w # vs) = (if nullish v then first_defined (w # vs) else v)"

text \<open>\<^verbatim>\<open>Number(v)\<close>. A bn.js integer and a public key convert through their \<^verbatim>\<open>toString()\<close>.\<close>

fun Number :: "jsval \<Rightarrow> jsnum" where
  "Number JUndefined = NaN"
| "Number JNull = Fin 0"
| "Number (JBool b) = Fin (if b then 1 else 0)"
| "Number (JNum x) = x"
| "Number (JStr s) = Number_of_string s"
| "Number (JBigInt n) = Fin (real_of_int n)"
| "Number (JBN n) = Number_of_string (show_int n)"
| "Number (JPubkey k) = Number_of_string k"
| "Number (JObj fs) = NaN"

section \<open>Atomic amounts\<close>

subsection \<open>bn.js\<close>

text \<open>
  A \<^verbatim>\<open>BN\<close> is an unbounded integer. \<^verbatim>\<open>new BN(string)\<close> reads base 10: white space is
  removed, the empty string is 0, a leading minus sign negates, and a character that is
  no decimal digit fails the assertion \<^verbatim>\<open>Invalid character\<close> (bn.js 5). A sign with no
  digit after it leaves bn.js with an object without digits; the model refuses it too.
\<close>

definition BN_of_string :: "string \<Rightarrow> error + int" where
  "BN_of_string s0 =
     (if s0 = [] then Inr 0
      else
        (let s = filter (\<lambda>c. \<not> is_ws c) s0;
             neg = (s \<noteq> [] \<and> hd s = CHR ''-'');
             ds = (if neg then tl s else s)
         in if ds = [] \<or> \<not> list_all is_digit ds then Inl InvalidCharacter
            else Inr (if neg then - int (digits_val ds) else int (digits_val ds))))"

text \<open>
  \<^verbatim>\<open>new BN(number)\<close>: \<^verbatim>\<open>NaN\<close> and 0 are falsy and give 0; a magnitude of \<open>2^53\<close> or
  more (so also an infinity) fails an assertion.
\<close>

definition Math_trunc :: "jsnum \<Rightarrow> jsnum" where
  "Math_trunc x = (case x of Fin r \<Rightarrow> Fin (if 0 \<le> r then of_int \<lfloor>r\<rfloor> else of_int \<lceil>r\<rceil>) | _ \<Rightarrow> x)"

definition BN_of_number :: "jsnum \<Rightarrow> error + int" where
  "BN_of_number x =
     (case x of
        NaN \<Rightarrow> Inr 0
      | Fin r \<Rightarrow> if \<bar>r\<bar> < 2 ^ 53 then Inr (if 0 \<le> r then \<lfloor>r\<rfloor> else \<lceil>r\<rceil>) else Inl AssertionFailed
      | _ \<Rightarrow> Inl AssertionFailed)"

subsection \<open>\<^verbatim>\<open>Number.prototype.toFixed\<close>\<close>

text \<open>
  \<^verbatim>\<open>x.toFixed(d)\<close> throws a \<^verbatim>\<open>RangeError\<close> unless \<open>0 \<le> d \<le> 100\<close>. Below \<open>10^21\<close> it
  gives the decimal digits of the integer nearest to \<open>|x| * 10^d\<close> (the larger one on
  a tie), padded with zeros to \<open>d + 1\<close> digits, the point before the last \<open>d\<close> digits
  and a minus sign in front when \<open>x < 0\<close>. From \<open>10^21\<close> on it gives the exponent
  notation of \<^verbatim>\<open>x.toString()\<close>, whose digits depend on the binary value and are not
  modelled: \<open>Exponent_notation\<close> stands for such a string, which always holds the
  letter \<^verbatim>\<open>e\<close>.
\<close>

datatype numeral_text = Plain string | Exponent_notation

definition toFixed :: "jsnum \<Rightarrow> int \<Rightarrow> error + numeral_text" where
  "toFixed x d =
     (if d < 0 \<or> 100 < d then Inl RangeError
      else
        (case x of
           NaN \<Rightarrow> Inr (Plain ''NaN'')
         | PInf \<Rightarrow> Inr (Plain ''Infinity'')
         | NInf \<Rightarrow> Inr (Plain ''-Infinity'')
         | Fin r \<Rightarrow>
             if 10 ^ 21 \<le> \<bar>r\<bar> then Inr Exponent_notation
             else
               (let n = nat \<lfloor>\<bar>r\<bar> * 10 ^ nat d + 1 / 2\<rfloor>;
                    m = padStart (show_nat n) (d + 1);
                    k = length m - nat d;
                    body = (if d = 0 then m else take k m @ CHR ''.'' # drop k m)
                in Inr (Plain (if r < 0 then CHR ''-'' # body else body)))))"

subsection \<open>The script's conversions\<close>

text \<open>\<^verbatim>\<open>toAtomicBN\<close>: \<^verbatim>\<open>new BN(amount.toFixed(decimals).replace(".", ""))\<close>.\<close>

definition toAtomicBN :: "jsnum \<Rightarrow> int \<Rightarrow> error + int" where
  "toAtomicBN amount decimals =
     (case toFixed amount decimals of
        Inl e \<Rightarrow> Inl e
      | Inr Exponent_notation \<Rightarrow> Inl InvalidCharacter
      | Inr (Plain s) \<Rightarrow> BN_of_string (remove_first (CHR ''.'') s))"

fun asBN :: "jsval \<Rightarrow> error + int" where
  "asBN (JBN n) = Inr n"
| "asBN (JBigInt n) = BN_of_string (show_int n)"
| "asBN (JNum x) = BN_of_number (Math_trunc x)"
| "asBN (JStr s) = BN_of_string s"
| "asBN _ = Inl CannotCoerce"

definition fromAtomicToNumber :: "jsval \<Rightarrow> int \<Rightarrow> error + jsnum" where
  "fromAtomicToNumber x decimals =
     (case asBN x of
        Inl e \<Rightarrow> Inl e
      | Inr bn \<Rightarrow>
          (let s = show_int bn in
           if decimals = 0 then Inr (Number_of_string s)
           else
             (let pad = padStart s (decimals + 1);
                  int_part = slice pad 0 (- decimals);
                  frac = slice_from pad (- decimals);
                  composed = int_part @ CHR ''.'' # frac
              in Inr (Number_of_string composed))))"

subsection \<open>Reading a quote\<close>

definition getAmountOut :: "jsval \<Rightarrow> jsval" where
  "getAmountOut q = first_defined (map (get_prop q)
     [''amountOut'', ''outAmount'', ''amountOutBn'', ''amountOutLamports'',
      ''outAmountLamports'', ''outputAmount'', ''yAmount'', ''xAmount''] @ [JUndefined])"

definition getAmountIn :: "jsval \<Rightarrow> jsval" where
  "getAmountIn q = first_defined (map (get_prop q)
     [''amountIn'', ''inAmount'', ''amountInBn'', ''amountInLamports'',
      ''inputAmount'', ''yAmount'', ''xAmount''] @ [JUndefined])"

definition getFeeAmount :: "jsval \<Rightarrow> jsval" where
  "getFeeAmount q =
     (let f = first_defined [get_prop q ''fee'', get_prop q ''fees'', JObj []]
      in first_defined
           (map (get_prop f) [''totalFeeAmount'', ''swapFee'', ''binFee'', ''totalFee'', ''feeAmount'', ''amount'']
            @ map (get_prop q) [''totalFeeAmount'', ''feeAmount''] @ [JUndefined]))"


section \<open>Constants of the script\<close>

definition SOL_MINT :: string where
  "SOL_MINT = ''So11111111111111111111111111111111111111112''"

definition USDC_MINT :: string where
  "USDC_MINT = ''EPjFWdd5AufqSSqeM2qN1xzybapC8G4wEGGkZwyTDt1v''"

definition CBTC_MINT :: string where
  "CBTC_MINT = ''cbbtcf3aa214zXHbiAZQwf4122FBYbraNdFqgw4iMij''"

definition WBTC_MINT :: string where
  "WBTC_MINT = ''3NZ9JMVBmGAqocybic2c7LQCJScmgsAZ6vQqTDzcqmJh''"

definition JLP_MINT :: string where
  "JLP_MINT = ''27G8MtK7VtTcCHkpASjSDdkWWYfoqT6ggEuKidVJidD4''"

definition TRUMP_MINT :: string where
  "TRUMP_MINT = ''6p6xgHyF7AeE6TZkSmFsko444wqoP15icUSqi2jfGiPN''"

definition JUP_MINT :: string where
  "JUP_MINT = ''JUPyiwrYJFskUPiHa7hkeR8VUtAeFoSYbKedZNsDvCN''"

definition PUMP_MINT :: string where
  "PUMP_MINT = ''pumpCmXqMfrsAkQ5r49WcJnRayYRqmXz6ae8H7H9Dfn''"

definition SYMBOL_MAP :: "(string \<times> string) list" where
  "SYMBOL_MAP =
     [(''EPjFWdd5AufqSSqeM2qN1xzybapC8G4wEGGkZwyTDt1v'', ''USDC''),
      (''So11111111111111111111111111111111111111112'', ''SOL''),
      (''3NZ9JMVBmGAqocybic2c7LQCJScmgsAZ6vQqTDzcqmJh'', ''WBTC''),
      (''cbbtcf3aa214zXHbiAZQwf4122FBYbraNdFqgw4iMij'', ''cbBTC''),
      (''27G8MtK7VtTcCHkpASjSDdkWWYfoqT6ggEuKidVJidD4'', ''JLP''),
      (''6p6xgHyF7AeE6TZkSmFsko444wqoP15icUSqi2jfGiPN'', ''TRUMP''),
      (''JUPyiwrYJFskUPiHa7hkeR8VUtAeFoSYbKedZNsDvCN'', ''JUP''),
      (''pumpCmXqMfrsAkQ5r49WcJnRayYRqmXz6ae8H7H9Dfn'', ''PUMP'')]"

text \<open>Pinned base per-leg fees, in basis points, by pool address.\<close>

definition PINNED_POOL_PER_LEG_BPS :: "(string \<times> real) list" where
  "PINNED_POOL_PER_LEG_BPS =
     [(''HTvjzsfX3yU6BUodCjZ5vZkUrAxMDTrBs3CJaq43ashR'', 1),
      (''5rCf1DM8LjKTw4YqhnoLcngyZYeNnQqztScTogYHAS6'', 4),
      (''BVRbyLjjfSBcoyiYFuxbgKYnWuiFaF9CSXEa5vdSZ9Hh'', 20),
      (''BGm1tav58oGcsQJehL9WXBFXF7D27vZsKefj4xJKD5Y'', 10),
      (''HbjYfcWZBjCBYTJpZkLGxqArVmZVu3mQcRudb6Wg1sVh'', 20),
      (''J2Gsg3xTDjM8UZjKdEqzBeDwitHb2Ux6TSBX5RzsE42r'', 20),
      (''4kdxjt8pKEW4qV4ji4HANixwswDJw3Egn8L4x2BEWQqT'', 301237 / 100000),
      (''7ubS3GccjhQY99AYNKXjNJqnXjaokEdfdV915xnCb96r'', 4005 / 1000),
      (''9d9mb8kooFfaD3SctgZtkxQypkshx6ezhbKio89ixyy2'', 10),
      (''C8Gr6AUuq9hEdSYJzoEpNcdjpojPZwqG5MtQbeouNNwg'', 15)]"

text \<open>Decimal overrides for known tokens.\<close>

definition DEC_OVERRIDE :: "(string \<times> int) list" where
  "DEC_OVERRIDE =
     [(USDC_MINT, 6), (SOL_MINT, 9), (CBTC_MINT, 8), (WBTC_MINT, 8),
      (JLP_MINT, 6), (TRUMP_MINT, 6), (JUP_MINT, 6), (PUMP_MINT, 6)]"

definition MAX_EXTRA_BIN_ARRAYS :: nat where
  "MAX_EXTRA_BIN_ARRAYS = 3"

definition SOL_USDC_POOL :: string where
  "SOL_USDC_POOL = ''5rCf1DM8LjKTw4YqhnoLcngyZYeNnQqztScTogYHAS6''"

definition toBps :: "jsnum \<Rightarrow> jsnum" where
  "toBps x = js_mul x (Fin 10000)"

section \<open>The SDK and the environment\<close>

text \<open>
  The pool handle that \<^verbatim>\<open>DLMM.create\<close> returns: the fields of \<^verbatim>\<open>lbPair\<close> the script
  reads and the four methods it calls. A method either throws or returns a value; its
  result depends on its arguments only. Token decimals are integers, as the mint
  accounts store them. Pool and mint addresses are valid public keys in base58, which
  \<^verbatim>\<open>new PublicKey(s).toBase58()\<close> gives back unchanged.
\<close>

record lb_pair =
  tokenX :: jsval
  tokenXMint :: jsval
  tokenMintX :: jsval
  tokenY :: jsval
  tokenYMint :: jsval
  tokenMintY :: jsval
  tokenXDecimals :: "int option"
  tokenYDecimals :: "int option"
  binStep :: jsval
  tickSpacing :: jsval
  protocolFeeBps :: jsval
  liquidity :: jsval
  sqrtPriceX64 :: jsval
  activeId :: jsval

record dlmm =
  program :: jsval
  lbPair :: lb_pair
  getActiveBin :: "error + jsval"
  getBinArrayForSwap :: "bool \<Rightarrow> jsnum \<Rightarrow> error + jsval"
  swapQuote :: "int \<Rightarrow> bool \<Rightarrow> int \<Rightarrow> jsval \<Rightarrow> bool \<Rightarrow> nat \<Rightarrow> error + jsval"
  swapQuoteExactOut :: "int \<Rightarrow> bool \<Rightarrow> int \<Rightarrow> jsval \<Rightarrow> nat \<Rightarrow> error + jsval"

text \<open>
  The rest of the world: \<^verbatim>\<open>DLMM.create\<close> by pool address, the text of a number
  (\<^verbatim>\<open>Number.prototype.toString\<close>, whose digits depend on the binary value) and the
  clock, read as ISO text after a number of \<^verbatim>\<open>sleep(120)\<close> calls.
\<close>

record env =
  DLMM_create :: "string \<Rightarrow> error + dlmm"
  num_text :: "jsnum \<Rightarrow> string"
  clock :: "nat \<Rightarrow> string"

text \<open>\<^verbatim>\<open>v.toBase58()\<close> and \<^verbatim>\<open>v?.toBase58?.()\<close>: only a public key has the method.\<close>

fun toBase58 :: "jsval \<Rightarrow> error + string" where
  "toBase58 (JPubkey k) = Inr k"
| "toBase58 _ = Inl TypeError"

fun toBase58_opt :: "jsval \<Rightarrow> string option" where
  "toBase58_opt (JPubkey k) = Some k"
| "toBase58_opt _ = None"

text \<open>\<^verbatim>\<open>v.toString()\<close> of a value that is neither \<^verbatim>\<open>undefined\<close> nor \<^verbatim>\<open>null\<close>.\<close>

fun to_text :: "(jsnum \<Rightarrow> string) \<Rightarrow> jsval \<Rightarrow> string" where
  "to_text nt JUndefined = ''undefined''"
| "to_text nt JNull = ''null''"
| "to_text nt (JBool b) = (if b then ''true'' else ''false'')"
| "to_text nt (JNum x) = nt x"
| "to_text nt (JStr s) = s"
| "to_text nt (JBigInt n) = show_int n"
| "to_text nt (JBN n) = show_int n"
| "to_text nt (JPubkey k) = k"
| "to_text nt (JObj fs) = ''[object Object]''"

text \<open>\<^verbatim>\<open>v !== undefined && v !== null ? v.toString() : ""\<close>, also \<^verbatim>\<open>v?.toString?.() ?? ""\<close>.\<close>

definition text_or_empty :: "(jsnum \<Rightarrow> string) \<Rightarrow> jsval \<Rightarrow> string" where
  "text_or_empty nt v = (if nullish v then [] else to_text nt v)"

text \<open>\<^verbatim>\<open>x.toFixed(d)\<close> as text, the exponent notation taken from the environment.\<close>

definition toFixed_text :: "(jsnum \<Rightarrow> string) \<Rightarrow> jsnum \<Rightarrow> int \<Rightarrow> error + string" where
  "toFixed_text nt x d =
     (case toFixed x d of
        Inl e \<Rightarrow> Inl e
      | Inr (Plain s) \<Rightarrow> Inr s
      | Inr Exponent_notation \<Rightarrow>
          Inr (if js_lt x (Fin 0) then CHR ''-'' # nt (js_neg x) else nt x))"

section \<open>The SOL/USD price\<close>

text \<open>The body of the \<^verbatim>\<open>try\<close> block of \<^verbatim>\<open>fetchSolUsd\<close>, and the function with its \<^verbatim>\<open>catch\<close>.\<close>

definition fetchSolUsd_try :: "env \<Rightarrow> error + jsnum" where
  "fetchSolUsd_try e =
     (case DLMM_create e SOL_USDC_POOL of
        Inl err \<Rightarrow> Inl err
      | Inr d \<Rightarrow>
          (case getActiveBin d of
             Inl err \<Rightarrow> Inl err
           | Inr activeBin \<Rightarrow>
               if nullish activeBin then Inl TypeError
               else
                 (let mid = Number (first_defined
                              [get_prop activeBin ''pricePerToken'', get_prop activeBin ''price''])
                  in if \<not> isFinite mid \<or> js_le mid (Fin 0) then Inl InvalidMid
                     else Inr mid)))"

definition fetchSolUsd :: "env \<Rightarrow> jsnum" where
  "fetchSolUsd e = (case fetchSolUsd_try e of Inl err \<Rightarrow> Fin 195 | Inr mid \<Rightarrow> mid)"


section \<open>The main program\<close>

subsection \<open>Options and set-up\<close>

text \<open>
  The options after yargs: \<^verbatim>\<open>--range\<close> and \<^verbatim>\<open>--csv\<close> may be absent, the numeric
  options are numbers (\<^verbatim>\<open>NaN\<close> for text that is no number).
\<close>

record argv =
  arg_pool :: string
  arg_quoteMint :: string
  arg_sizes :: string
  arg_range :: "string option"
  arg_coverage :: jsnum
  arg_dynamicFeePct :: jsnum
  arg_csv :: "string option"

text \<open>\<^verbatim>\<open>argv.range ? parseSizes(argv.range) : parseSizes(argv.sizes)\<close>: an empty string is falsy.\<close>

definition sizesUSD :: "argv \<Rightarrow> error + jsnum list" where
  "sizesUSD a =
     (case arg_range a of
        Some r \<Rightarrow> if r \<noteq> [] then parseSizes r else parseSizes (arg_sizes a)
      | None \<Rightarrow> parseSizes (arg_sizes a))"

definition dynamicFeePct :: "argv \<Rightarrow> jsnum" where
  "dynamicFeePct a = or_zero (arg_dynamicFeePct a)"

text \<open>\<^verbatim>\<open>DEC_OVERRIDE[mint] ?? Number(lbPair.tokenXDecimals ?? 9)\<close>.\<close>

definition decimals_of :: "string \<Rightarrow> int option \<Rightarrow> int" where
  "decimals_of mint lb_decimals =
     (case map_of DEC_OVERRIDE mint of
        Some d \<Rightarrow> d
      | None \<Rightarrow> (case lb_decimals of Some d \<Rightarrow> d | None \<Rightarrow> 9))"

definition rawMid :: "jsval \<Rightarrow> jsnum" where
  "rawMid activeBin =
     Number (first_defined
       [get_prop activeBin ''pricePerToken'', get_prop activeBin ''price'', JNum (Fin 0)])"

text \<open>\<^verbatim>\<open>rawMid * Math.pow(10, baseDecs - quoteDecs)\<close>.\<close>

definition adjustedMid :: "jsval \<Rightarrow> int \<Rightarrow> int \<Rightarrow> jsnum" where
  "adjustedMid activeBin baseDecs quoteDecs =
     js_mul (rawMid activeBin) (Fin (scale10 1 (baseDecs - quoteDecs)))"

text \<open>The three branches on the quote mint (lines 199 to 209).\<close>

definition refPriceUSDperQuote :: "env \<Rightarrow> string \<Rightarrow> jsnum" where
  "refPriceUSDperQuote e quoteMint =
     (if quoteMint = USDC_MINT then Fin 1
      else if quoteMint = SOL_MINT then fetchSolUsd e
      else Fin 1)"

definition midUSDperBase :: "env \<Rightarrow> string \<Rightarrow> jsnum \<Rightarrow> jsnum" where
  "midUSDperBase e quoteMint adjusted =
     (if quoteMint = USDC_MINT then adjusted
      else if quoteMint = SOL_MINT then js_mul (fetchSolUsd e) adjusted
      else adjusted)"

definition arraysToFetch :: "jsnum \<Rightarrow> jsnum" where
  "arraysToFetch coverage = Math_max (Fin 2) coverage"

definition basePerLegBps :: "string \<Rightarrow> jsnum" where
  "basePerLegBps pool_address =
     (case map_of PINNED_POOL_PER_LEG_BPS pool_address of Some f \<Rightarrow> Fin f | None \<Rightarrow> Fin 0)"

definition dynPerLegBps :: "argv \<Rightarrow> jsnum" where
  "dynPerLegBps a = js_mul (dynamicFeePct a) (Fin 100)"

definition fee_bps_total :: "argv \<Rightarrow> jsnum" where
  "fee_bps_total a = js_mul (Fin 2) (js_add (basePerLegBps (arg_pool a)) (dynPerLegBps a))"

text \<open>What the loop over the sizes reads: the values fixed before it starts.\<close>

record run_ctx =
  c_dlmm :: dlmm
  c_pool :: string
  c_programId :: string
  c_quoteMint :: string
  c_baseMint :: string
  c_baseDecs :: int
  c_quoteDecs :: int
  c_activeBin :: jsval
  c_refPrice :: jsnum
  c_mid :: jsnum
  c_buySwapForY :: bool
  c_sellSwapForY :: bool
  c_buyBinArrays :: jsval
  c_sellBinArrays :: jsval
  c_binStep :: jsnum
  c_basePerLegBps :: jsnum
  c_dynPerLegBps :: jsnum
  c_fee_bps_total :: jsnum
  c_csv :: "string option"

definition prepare :: "env \<Rightarrow> argv \<Rightarrow> error + run_ctx" where
  "prepare e a =
     (case DLMM_create e (arg_pool a) of
        Inl err \<Rightarrow> Inl err
      | Inr d \<Rightarrow>
     (let lb = lbPair d;
          programId = (case toBase58_opt (get_prop (program d) ''programId'') of
                         Some k \<Rightarrow> k | None \<Rightarrow> ''DLMM_PROGRAM'')
      in case toBase58 (first_defined [tokenX lb, tokenXMint lb, tokenMintX lb]) of
        Inl err \<Rightarrow> Inl err
      | Inr tokX \<Rightarrow>
     (case toBase58 (first_defined [tokenY lb, tokenYMint lb, tokenMintY lb]) of
        Inl err \<Rightarrow> Inl err
      | Inr tokY \<Rightarrow>
     (let decX = decimals_of tokX (tokenXDecimals lb);
          decY = decimals_of tokY (tokenYDecimals lb);
          isQuoteX = (tokX = arg_quoteMint a);
          baseMint = (if isQuoteX then tokY else tokX);
          baseDecs = (if isQuoteX then decY else decX);
          quoteDecs = (if isQuoteX then decX else decY)
      in case getActiveBin d of
        Inl err \<Rightarrow> Inl err
      | Inr activeBin \<Rightarrow>
          if nullish activeBin then Inl TypeError
          else
     (let adjusted = adjustedMid activeBin baseDecs quoteDecs;
          ref = refPriceUSDperQuote e (arg_quoteMint a);
          mid = midUSDperBase e (arg_quoteMint a) adjusted;
          n = arraysToFetch (arg_coverage a);
          buySwapForY = isQuoteX;
          sellSwapForY = (\<not> isQuoteX)
      in case getBinArrayForSwap d buySwapForY n of
        Inl err \<Rightarrow> Inl err
      | Inr buyBinArrays \<Rightarrow>
     (case getBinArrayForSwap d sellSwapForY n of
        Inl err \<Rightarrow> Inl err
      | Inr sellBinArrays \<Rightarrow>
          Inr \<lparr> c_dlmm = d, c_pool = arg_pool a, c_programId = programId,
                c_quoteMint = arg_quoteMint a, c_baseMint = baseMint,
                c_baseDecs = baseDecs, c_quoteDecs = quoteDecs, c_activeBin = activeBin,
                c_refPrice = ref, c_mid = mid,
                c_buySwapForY = buySwapForY, c_sellSwapForY = sellSwapForY,
                c_buyBinArrays = buyBinArrays, c_sellBinArrays = sellBinArrays,
                c_binStep = Number (first_defined [binStep lb, tickSpacing lb, JNum (Fin 0)]),
                c_basePerLegBps = basePerLegBps (arg_pool a),
                c_dynPerLegBps = dynPerLegBps a,
                c_fee_bps_total = fee_bps_total a,
                c_csv = arg_csv a \<rparr>))))))"

subsection \<open>One trade size\<close>

text \<open>What the \<^verbatim>\<open>try\<close> block computes for one size before it prints.\<close>

record metrics =
  m_quoteIn :: jsnum
  m_buyQ :: jsval
  m_buyOutBase :: jsnum
  m_buyPx :: jsnum
  m_sellQ :: jsval
  m_sellInBase :: jsnum
  m_sellPx :: jsnum
  m_impact_bps :: jsnum
  m_rt_bps :: jsnum

definition quote_size :: "run_ctx \<Rightarrow> jsnum \<Rightarrow> error + metrics" where
  "quote_size c usd =
     (let quoteIn = js_div usd (c_refPrice c)
      in case toAtomicBN quoteIn (c_quoteDecs c) of
        Inl err \<Rightarrow> Inl err
      | Inr buyAmount \<Rightarrow>
     (case swapQuote (c_dlmm c) buyAmount (c_buySwapForY c) 50 (c_buyBinArrays c) False
             MAX_EXTRA_BIN_ARRAYS of
        Inl err \<Rightarrow> Inl err
      | Inr buyQ \<Rightarrow>
     (case fromAtomicToNumber (getAmountOut buyQ) (c_baseDecs c) of
        Inl err \<Rightarrow> Inl err
      | Inr buyOutBase \<Rightarrow>
     (let buyPxUSDperBase = js_div usd buyOutBase
      in case toAtomicBN quoteIn (c_quoteDecs c) of
        Inl err \<Rightarrow> Inl err
      | Inr sellAmount \<Rightarrow>
     (case swapQuoteExactOut (c_dlmm c) sellAmount (c_sellSwapForY c) 50 (c_sellBinArrays c)
             MAX_EXTRA_BIN_ARRAYS of
        Inl err \<Rightarrow> Inl err
      | Inr sellQ \<Rightarrow>
     (case fromAtomicToNumber (getAmountIn sellQ) (c_baseDecs c) of
        Inl err \<Rightarrow> Inl err
      | Inr sellInBase \<Rightarrow>
     (let sellPxUSDperBase = js_div usd sellInBase;
          impact_bps = toBps (js_div (js_sub buyPxUSDperBase sellPxUSDperBase) (c_mid c));
          rt_bps = js_add impact_bps (c_fee_bps_total c)
      in Inr \<lparr> m_quoteIn = quoteIn, m_buyQ = buyQ, m_buyOutBase = buyOutBase,
                m_buyPx = buyPxUSDperBase, m_sellQ = sellQ, m_sellInBase = sellInBase,
                m_sellPx = sellPxUSDperBase, m_impact_bps = impact_bps,
                m_rt_bps = rt_bps \<rparr>)))))))"

subsection \<open>The CSV file\<close>

definition newline :: char where
  "newline = CHR 0x0A"

definition csv_header :: string where
  "csv_header =
     ''ts_utc,dex,pool,program_id,tick_spacing,fee_ppm,fee_bps,protocol_fee_ppm,'' @
     ''liquidity_u128,sqrt_price_x64,tick_current,'' @
     ''mintA,decA,symbolA,mintB,decB,symbolB,'' @
     ''base_mint,base_decimals,base_symbol,'' @
     ''quote_mint,quote_decimals,quote_symbol,'' @
     ''usd_per_quote,mid_usd_per_base,usd_notional,'' @
     ''buy_px_usd_per_base,sell_px_usd_per_base,'' @
     ''roundtrip_bps,fee_bps_total,impact_bps_total,'' @
     ''buy_out_base,sell_in_base,buy_fee_quote,sell_fee_base''"

definition symbol_of :: "string \<Rightarrow> string" where
  "symbol_of mint = (case map_of SYMBOL_MAP mint of Some sy \<Rightarrow> sy | None \<Rightarrow> [])"

text \<open>\<^verbatim>\<open>lbPair?.tokenXDecimals ?? ""\<close>, then \<^verbatim>\<open>.toString()\<close>.\<close>

definition decimals_text :: "(jsnum \<Rightarrow> string) \<Rightarrow> int option \<Rightarrow> string" where
  "decimals_text nt d = (case d of Some k \<Rightarrow> nt (Fin (real_of_int k)) | None \<Rightarrow> [])"

text \<open>
  \<^verbatim>\<open>(lbPair?.protocolFeeBps ?? 0) * 10000\<close>: the product of a \<^verbatim>\<open>bigint\<close> and a number
  throws a \<^verbatim>\<open>TypeError\<close>.
\<close>

definition protocol_fee_ppm :: "jsval \<Rightarrow> error + jsnum" where
  "protocol_fee_ppm v =
     (case first_defined [v, JNum (Fin 0)] of
        JBigInt n \<Rightarrow> Inl TypeError
      | w \<Rightarrow> Inr (js_mul (Number w) (Fin 10000)))"

text \<open>
  The fields of a data row in the order of the array literal (lines 320 to 355), each
  as the text that \<^verbatim>\<open>join\<close> gives it.
\<close>

definition csv_fields :: "env \<Rightarrow> run_ctx \<Rightarrow> jsnum \<Rightarrow> metrics \<Rightarrow> nat \<Rightarrow> error + string list" where
  "csv_fields e c usd m now =
     (let nt = num_text e;
          lb = lbPair (c_dlmm c);
          mintA = (case toBase58_opt (tokenX lb) of Some k \<Rightarrow> k | None \<Rightarrow> []);
          mintB = (case toBase58_opt (tokenY lb) of Some k \<Rightarrow> k | None \<Rightarrow> [])
      in case toFixed_text nt (js_mul (js_add (c_basePerLegBps c) (c_dynPerLegBps c)) (Fin 10000)) 0 of
        Inl err \<Rightarrow> Inl err
      | Inr fee_ppm \<Rightarrow>
     (case protocol_fee_ppm (protocolFeeBps lb) of
        Inl err \<Rightarrow> Inl err
      | Inr protocol_ppm \<Rightarrow>
          Inr [clock e now,
               ''meteora'',
               c_pool c,
               c_programId c,
               nt (c_binStep c),
               fee_ppm,
               nt (c_fee_bps_total c),
               nt protocol_ppm,
               text_or_empty nt (liquidity lb),
               text_or_empty nt (sqrtPriceX64 lb),
               to_text nt (first_defined [activeId lb, get_prop (c_activeBin c) ''activeId'', JStr []]),
               mintA,
               decimals_text nt (tokenXDecimals lb),
               symbol_of mintA,
               mintB,
               decimals_text nt (tokenYDecimals lb),
               symbol_of mintB,
               c_baseMint c,
               nt (Fin (real_of_int (c_baseDecs c))),
               symbol_of (c_baseMint c),
               c_quoteMint c,
               nt (Fin (real_of_int (c_quoteDecs c))),
               symbol_of (c_quoteMint c),
               nt (c_refPrice c),
               nt (c_mid c),
               nt usd,
               nt (m_buyPx m),
               nt (m_sellPx m),
               nt (m_rt_bps m),
               nt (c_fee_bps_total c),
               nt (m_impact_bps m),
               nt (m_buyOutBase m),
               nt (m_sellInBase m),
               text_or_empty nt (getFeeAmount (m_buyQ m)),
               text_or_empty nt (getFeeAmount (m_sellQ m))]))"

definition csv_line :: "string list \<Rightarrow> string" where
  "csv_line cells = join (CHR '','') cells @ [newline]"

text \<open>The file system: the content of each file that exists.\<close>

type_synonym fs = "string \<Rightarrow> string option"

definition existsSync :: "fs \<Rightarrow> string \<Rightarrow> bool" where
  "existsSync files path = (files path \<noteq> None)"

definition file_size :: "fs \<Rightarrow> string \<Rightarrow> nat" where
  "file_size files path = (case files path of Some content \<Rightarrow> length content | None \<Rightarrow> 0)"

text \<open>A write to a stream opened with \<^verbatim>\<open>flags: "a"\<close>; opening creates a missing file.\<close>

definition append_file :: "fs \<Rightarrow> string \<Rightarrow> string \<Rightarrow> fs" where
  "append_file files path txt =
     files(path \<mapsto> (case files path of Some content \<Rightarrow> content | None \<Rightarrow> []) @ txt)"

definition needHeader :: "fs \<Rightarrow> string \<Rightarrow> bool" where
  "needHeader files csvPath = (\<not> existsSync files csvPath \<or> file_size files csvPath = 0)"

text \<open>
  Opening the stream (lines 223 to 241): the texts written at that point, which is the
  header line alone or nothing, and the file system after it.
\<close>

definition open_csv_writes :: "fs \<Rightarrow> string option \<Rightarrow> string list" where
  "open_csv_writes files csv =
     (case csv of
        None \<Rightarrow> []
      | Some csvPath \<Rightarrow> if needHeader files csvPath then [csv_header @ [newline]] else [])"

definition open_csv :: "fs \<Rightarrow> string option \<Rightarrow> fs" where
  "open_csv files csv =
     (case csv of
        None \<Rightarrow> files
      | Some csvPath \<Rightarrow> append_file files csvPath (concat (open_csv_writes files csv)))"

subsection \<open>The loop over the sizes\<close>

datatype console_line =
    RT_line jsnum metrics      \<comment> \<open>\<^verbatim>\<open>console.log("RT ...")\<close> for a size\<close>
  | ERROR_line jsnum error     \<comment> \<open>\<^verbatim>\<open>console.error("[ERROR size=...] ...")\<close>\<close>

record out_state =
  console :: "console_line list"
  files :: fs
  sleeps :: nat

text \<open>One iteration: the \<^verbatim>\<open>try\<close> block and its \<^verbatim>\<open>catch\<close>; both end with \<^verbatim>\<open>sleep(120)\<close>.\<close>

definition size_step :: "env \<Rightarrow> run_ctx \<Rightarrow> jsnum \<Rightarrow> out_state \<Rightarrow> out_state" where
  "size_step e c usd st =
     (case quote_size c usd of
        Inl err \<Rightarrow>
          st\<lparr>console := console st @ [ERROR_line usd err], sleeps := sleeps st + 1\<rparr>
      | Inr m \<Rightarrow>
          (let printed = st\<lparr>console := console st @ [RT_line usd m]\<rparr>
           in case c_csv c of
                None \<Rightarrow> printed\<lparr>sleeps := sleeps st + 1\<rparr>
              | Some csvPath \<Rightarrow>
                  (case csv_fields e c usd m (sleeps st) of
                     Inl err \<Rightarrow>
                       printed\<lparr>console := console printed @ [ERROR_line usd err],
                               sleeps := sleeps st + 1\<rparr>
                   | Inr cells \<Rightarrow>
                       printed\<lparr>files := append_file (files st) csvPath (csv_line cells),
                               sleeps := sleeps st + 1\<rparr>)))"

fun size_loop :: "env \<Rightarrow> run_ctx \<Rightarrow> jsnum list \<Rightarrow> out_state \<Rightarrow> out_state" where
  "size_loop e c [] st = st"
| "size_loop e c (usd # rest) st = size_loop e c rest (size_step e c usd st)"

text \<open>
  The whole run. An error before the loop (the sizes, the SDK set-up) ends it; the
  summary lines printed before the loop are left out of the console.
\<close>

definition main :: "env \<Rightarrow> argv \<Rightarrow> fs \<Rightarrow> error + out_state" where
  "main e a files0 =
     (case sizesUSD a of
        Inl err \<Rightarrow> Inl err
      | Inr sizes \<Rightarrow>
          (case prepare e a of
             Inl err \<Rightarrow> Inl err
           | Inr c \<Rightarrow>
               Inr (size_loop e c sizes
                      \<lparr>console = [], files = open_csv files0 (c_csv c), sleeps = 0\<rparr>)))"


subsection \<open>Several runs\<close>

text \<open>
  Runs one after the other on the same file system. A run that ends with an error
  before the loop has not opened the CSV file. \<open>header_writes\<close> counts the header
  lines written by all the runs.
\<close>

fun run_many :: "(env \<times> argv) list \<Rightarrow> fs \<Rightarrow> fs" where
  "run_many [] files0 = files0"
| "run_many ((e, a) # later) files0 =
     run_many later (case main e a files0 of Inl err \<Rightarrow> files0 | Inr st \<Rightarrow> files st)"

fun header_writes :: "(env \<times> argv) list \<Rightarrow> fs \<Rightarrow> nat" where
  "header_writes [] files0 = 0"
| "header_writes ((e, a) # later) files0 =
     (case main e a files0 of
        Inl err \<Rightarrow> header_writes later files0
      | Inr st \<Rightarrow> length (open_csv_writes files0 (arg_csv a)) + header_writes later (files st))"

section \<open>Notions used in the statements\<close>


text \<open>The number of comma-separated fields of a line, and of commas in a text.\<close>

definition columns :: "string \<Rightarrow> nat" where
  "columns line = length (split (CHR '','') line)"

definition commas :: "string \<Rightarrow> nat" where
  "commas s = length (filter (\<lambda>x. x = CHR '','') s)"

text \<open>The content of a file, empty when it does not exist.\<close>

definition content_of :: "fs \<Rightarrow> string \<Rightarrow> string" where
  "content_of fsys path = (case fsys path of Some content \<Rightarrow> content | None \<Rightarrow> [])"

text \<open>The letters that announce a hexadecimal, octal or binary literal.\<close>

definition radix_mark :: "char \<Rightarrow> bool" where
  "radix_mark m = (m = CHR ''x'' \<or> m = CHR ''X'' \<or> m = CHR ''o'' \<or> m = CHR ''O''
                   \<or> m = CHR ''b'' \<or> m = CHR ''B'')"

text \<open>
  An amount converted to atomic units and back, as \<^verbatim>\<open>fromAtomicToNumber(toAtomicBN(x, d), d)\<close>.
\<close>

definition round_trip :: "jsnum \<Rightarrow> int \<Rightarrow> error + jsnum" where
  "round_trip x d =
     (case toAtomicBN x d of Inl e \<Rightarrow> Inl e | Inr bn \<Rightarrow> fromAtomicToNumber (JBN bn) d)"

text \<open>
  The specification's "\<open>x\<close> rounded to \<open>d\<close> decimal places": the multiple of \<open>10^-d\<close>
  nearest to \<open>x\<close>, a tie going away from zero. \<open>atomic_units\<close> is the magnitude of that
  multiple in units of \<open>10^-d\<close>.
\<close>

definition atomic_units :: "real \<Rightarrow> int \<Rightarrow> int" where
  "atomic_units x d = \<lfloor>\<bar>x\<bar> * 10 ^ nat d + 1 / 2\<rfloor>"

definition rounded_to :: "real \<Rightarrow> int \<Rightarrow> real" where
  "rounded_to x d =
     (if x < 0 then - real_of_int (atomic_units x d) else real_of_int (atomic_units x d))
       / 10 ^ nat d"

section \<open>A sample run\<close>

text \<open>
  A concrete environment to run the model on: a SOL/USDC pool whose active bin is
  priced at 0.15 atomic USDC per lamport (150 USD per SOL), whose exact-input quote
  fails above 1000 USDC, and a rendering of numbers that prints integers exactly and
  other values with six decimals.
\<close>

definition sample_num_text :: "jsnum \<Rightarrow> string" where
  "sample_num_text x =
     (case x of
        NaN \<Rightarrow> ''NaN'' | PInf \<Rightarrow> ''Infinity'' | NInf \<Rightarrow> ''-Infinity''
      | Fin r \<Rightarrow>
          (case toFixed x (if r = of_int \<lfloor>r\<rfloor> then 0 else 6) of
             Inr (Plain s) \<Rightarrow> s | _ \<Rightarrow> ''1e+21''))"

definition sample_pool_address :: string where
  "sample_pool_address = ''HTvjzsfX3yU6BUodCjZ5vZkUrAxMDTrBs3CJaq43ashR''"

definition sample_lb_pair :: lb_pair where
  "sample_lb_pair =
     \<lparr> tokenX = JPubkey SOL_MINT, tokenXMint = JUndefined, tokenMintX = JUndefined,
       tokenY = JPubkey USDC_MINT, tokenYMint = JUndefined, tokenMintY = JUndefined,
       tokenXDecimals = Some 9, tokenYDecimals = Some 6,
       binStep = JNum (Fin 10), tickSpacing = JUndefined, protocolFeeBps = JUndefined,
       liquidity = JUndefined, sqrtPriceX64 = JUndefined, activeId = JNum (Fin 8388) \<rparr>"

definition sample_pool :: dlmm where
  "sample_pool =
     \<lparr> program = JObj [(''programId'', JPubkey ''LBUZKhRxPF3XUpBCjp4YzTKgLccjZhTSDM9YuVaPwxo'')],
       lbPair = sample_lb_pair,
       getActiveBin = Inr (JObj [(''price'', JStr ''0.15'')]),
       getBinArrayForSwap = (\<lambda>swapForY n. Inr (JObj [(''requested'', JNum n)])),
       swapQuote = (\<lambda>amount swapForY slippage arrays partial extra.
          if 1000000000 < amount then Inl (SdkError ''insufficient liquidity'')
          else Inr (JObj [(''outAmount'', JBN (amount * 20 div 3 - amount div 100)),
                          (''feeAmount'', JBN (amount div 10000))])),
       swapQuoteExactOut = (\<lambda>amount swapForY slippage arrays extra.
          Inr (JObj [(''inAmount'', JBN (amount * 20 div 3 + amount div 100)),
                     (''feeAmount'', JBN (amount div 1500))])) \<rparr>"

definition sample_env :: env where
  "sample_env =
     \<lparr> DLMM_create = (\<lambda>address. if address = sample_pool_address then Inr sample_pool
                                 else Inl (SdkError ''account not found'')),
       num_text = sample_num_text,
       clock = (\<lambda>n. ''2025-01-01T00:00:00.000Z'') \<rparr>"

definition sample_argv :: argv where
  "sample_argv =
     \<lparr> arg_pool = sample_pool_address, arg_quoteMint = USDC_MINT,
       arg_sizes = ''3000,150'', arg_range = None,
       arg_coverage = Fin 0, arg_dynamicFeePct = Fin (1 / 20),
       arg_csv = Some ''out.csv'' \<rparr>"

text \<open>The context that the set-up computes for the sample run.\<close>

definition sample_ctx :: run_ctx where
  "sample_ctx =
     \<lparr> c_dlmm = sample_pool, c_pool = sample_pool_address,
       c_programId = ''LBUZKhRxPF3XUpBCjp4YzTKgLccjZhTSDM9YuVaPwxo'',
       c_quoteMint = USDC_MINT, c_baseMint = SOL_MINT,
       c_baseDecs = 9, c_quoteDecs = 6,
       c_activeBin = JObj [(''price'', JStr ''0.15'')],
       c_refPrice = Fin 1, c_mid = Fin 150,
       c_buySwapForY = False, c_sellSwapForY = True,
       c_buyBinArrays = JObj [(''requested'', JNum (Fin 2))],
       c_sellBinArrays = JObj [(''requested'', JNum (Fin 2))],
       c_binStep = Fin 10,
       c_basePerLegBps = Fin 1, c_dynPerLegBps = Fin 5, c_fee_bps_total = Fin 12,
       c_csv = Some ''out.csv'' \<rparr>"

text \<open>An environment in which the SDK cannot reach any pool.\<close>

definition offline_env :: env where
  "offline_env =
     \<lparr> DLMM_create = (\<lambda>address. Inl (SdkError ''fetch failed'')),
       num_text = sample_num_text,
       clock = (\<lambda>n. ''2025-01-01T00:00:00.000Z'') \<rparr>"

text \<open>An environment whose SOL/USDC pool reports a price that is no number.\<close>

definition unpriced_env :: env where
  "unpriced_env =
     \<lparr> DLMM_create = (\<lambda>address. Inr (sample_pool\<lparr>getActiveBin := Inr (JObj [(''price'', JStr ''n/a'')])\<rparr>)),
       num_text = sample_num_text,
       clock = (\<lambda>n. ''2025-01-01T00:00:00.000Z'') \<rparr>"

text \<open>What the sample run computes for the size of 150 USD.\<close>

definition sample_metrics :: metrics where
  "sample_metrics =
     \<lparr> m_quoteIn = Fin 150,
       m_buyQ = JObj [(''outAmount'', JBN 998500000), (''feeAmount'', JBN 15000)],
       m_buyOutBase = Fin (1997 / 2000),
       m_buyPx = Fin (300000 / 1997),
       m_sellQ = JObj [(''inAmount'', JBN 1001500000), (''feeAmount'', JBN 100000)],
       m_sellInBase = Fin (2003 / 2000),
       m_sellPx = Fin (300000 / 2003),
       m_impact_bps = Fin (120000000 / 3999991),
       m_rt_bps = Fin (120000000 / 3999991 + 12) \<rparr>"

text \<open>
  A pool whose active bin carries no price and whose two quotes move the same amount
  of base asset, with the context and the metrics the script computes for it.
\<close>

definition flat_pool :: dlmm where
  "flat_pool =
     sample_pool
       \<lparr> getActiveBin := Inr (JObj [(''binId'', JNum (Fin 8388))]),
         swapQuote := (\<lambda>amount swapForY slippage arrays partial extra.
            Inr (JObj [(''outAmount'', JBN (amount * 20 div 3))])),
         swapQuoteExactOut := (\<lambda>amount swapForY slippage arrays extra.
            Inr (JObj [(''inAmount'', JBN (amount * 20 div 3))])) \<rparr>"

definition flat_env :: env where
  "flat_env = sample_env\<lparr>DLMM_create := (\<lambda>address. Inr flat_pool)\<rparr>"

definition flat_ctx :: run_ctx where
  "flat_ctx =
     sample_ctx\<lparr>c_dlmm := flat_pool, c_activeBin := JObj [(''binId'', JNum (Fin 8388))],
                c_mid := Fin 0\<rparr>"

definition flat_metrics :: metrics where
  "flat_metrics =
     \<lparr> m_quoteIn = Fin 150,
       m_buyQ = JObj [(''outAmount'', JBN 1000000000)],
       m_buyOutBase = Fin 1,
       m_buyPx = Fin 150,
       m_sellQ = JObj [(''inAmount'', JBN 1000000000)],
       m_sellInBase = Fin 1,
       m_sellPx = Fin 150,
       m_impact_bps = NaN,
       m_rt_bps = NaN \<rparr>"

text \<open>The cells of the sample run's data row for 150 USD.\<close>

definition sample_cells :: "string list" where
  "sample_cells =
     [''2025-01-01T00:00:00.000Z'', ''meteora'',
      ''HTvjzsfX3yU6BUodCjZ5vZkUrAxMDTrBs3CJaq43ashR'',
      ''LBUZKhRxPF3XUpBCjp4YzTKgLccjZhTSDM9YuVaPwxo'',
      ''10'', ''60000'', ''12'', ''0'', '''', '''', ''8388'',
      ''So11111111111111111111111111111111111111112'', ''9'', ''SOL'',
      ''EPjFWdd5AufqSSqeM2qN1xzybapC8G4wEGGkZwyTDt1v'', ''6'', ''USDC'',
      ''So11111111111111111111111111111111111111112'', ''9'', ''SOL'',
      ''EPjFWdd5AufqSSqeM2qN1xzybapC8G4wEGGkZwyTDt1v'', ''6'', ''USDC'',
      ''1'', ''150'', ''150'', ''150.225338'', ''149.775337'', ''42.000068'', ''12'',
      ''30.000068'', ''0.998500'', ''1.001500'', ''15000'', ''100000'']"

section \<open>Evaluation lemmas\<close>

lemmas number_defs = Number_of_string_def trim_def is_ws_def non_decimal_def parse_decimal_def
  parse_unsigned_decimal_def is_digit_def parse_exponent_def digits_val_def digit_val_def
  scale10_def

lemma show_nat_numeral:
  "show_nat (numeral k) =
     (if (numeral k :: nat) < 10 then [digit_char (numeral k)]
      else show_nat (numeral k div 10) @ [digit_char (numeral k mod 10)])"
  by (rule show_nat.simps)

lemma show_nat_small: "show_nat 0 = ''0''" "show_nat (Suc 0) = ''1''"
  by (simp_all add: show_nat.simps digit_char_def)

lemmas amount_defs = toAtomicBN_def toFixed_def padStart_def show_nat_numeral show_nat_small
  show_int_def digit_char_def BN_of_string_def fromAtomicToNumber_def slice_def slice_from_def
  slice_index_def getAmountOut_def getAmountIn_def nullish_def

lemmas mint_defs = SOL_MINT_def USDC_MINT_def CBTC_MINT_def WBTC_MINT_def JLP_MINT_def
  TRUMP_MINT_def JUP_MINT_def PUMP_MINT_def

lemma prepare_sample: "prepare sample_env sample_argv = Inr sample_ctx"
  unfolding prepare_def sample_env_def sample_argv_def sample_ctx_def
  apply (simp add: sample_pool_def sample_lb_pair_def sample_pool_address_def
      decimals_of_def DEC_OVERRIDE_def nullish_def adjustedMid_def rawMid_def
      refPriceUSDperQuote_def midUSDperBase_def arraysToFetch_def Math_max_def
      basePerLegBps_def PINNED_POOL_PER_LEG_BPS_def dynPerLegBps_def dynamicFeePct_def
      or_zero_def fee_bps_total_def number_defs Let_def)
  apply (simp add: mint_defs)
  done

section \<open>The bin arrays requested\<close>

lemma Math_max_below: "js_lt c (Fin 2) \<Longrightarrow> Math_max (Fin 2) c = Fin 2"
  by (cases c) (auto simp: Math_max_def)

lemma Math_max_above: "js_le (Fin 2) c \<Longrightarrow> Math_max (Fin 2) c = c"
  by (cases c) (auto simp: Math_max_def)

lemma prepare_bin_arrays:
  assumes "prepare e a = Inr c"
  shows "getBinArrayForSwap (c_dlmm c) (c_buySwapForY c) (arraysToFetch (arg_coverage a))
           = Inr (c_buyBinArrays c)"
    and "getBinArrayForSwap (c_dlmm c) (c_sellSwapForY c) (arraysToFetch (arg_coverage a))
           = Inr (c_sellBinArrays c)"
  using assms
  by (auto simp: prepare_def Let_def split: sum.splits if_splits)

text \<open>
  Claim C10. For every value of the coverage option, both calls of
  \<^verbatim>\<open>getBinArrayForSwap\<close> (buy and sell direction) ask for
  \<^verbatim>\<open>Math.max(2, coverage)\<close> bin arrays: the arrays the run works with are the answers
  to these two requests, a coverage below 2 (zero, negative, minus infinity) asks for
  2, and a coverage of 2 or more asks for the coverage itself.
\<close>

theorem arraysToFetch_is_max_2_coverage:
  assumes "prepare e a = Inr c"
  shows "arraysToFetch (arg_coverage a) = Math_max (Fin 2) (arg_coverage a)
       \<and> getBinArrayForSwap (c_dlmm c) (c_buySwapForY c) (Math_max (Fin 2) (arg_coverage a))
           = Inr (c_buyBinArrays c)
       \<and> getBinArrayForSwap (c_dlmm c) (c_sellSwapForY c) (Math_max (Fin 2) (arg_coverage a))
           = Inr (c_sellBinArrays c)
       \<and> (js_lt (arg_coverage a) (Fin 2) \<longrightarrow> arraysToFetch (arg_coverage a) = Fin 2)
       \<and> (js_le (Fin 2) (arg_coverage a) \<longrightarrow> arraysToFetch (arg_coverage a) = arg_coverage a)"
  using prepare_bin_arrays[OF assms]
  by (simp add: arraysToFetch_def Math_max_below Math_max_above)

theorem arraysToFetch_is_max_2_coverage_witness:
  "prepare sample_env sample_argv = Inr sample_ctx
   \<and> arg_coverage sample_argv = Fin 0
   \<and> js_lt (arg_coverage sample_argv) (Fin 2)
   \<and> arraysToFetch (arg_coverage sample_argv) = Fin 2
   \<and> getBinArrayForSwap (c_dlmm sample_ctx) (c_buySwapForY sample_ctx) (Fin 2)
        = Inr (c_buyBinArrays sample_ctx)
   \<and> getBinArrayForSwap (c_dlmm sample_ctx) (c_sellSwapForY sample_ctx) (Fin 2)
        = Inr (c_sellBinArrays sample_ctx)"
proof -
  have cov: "arg_coverage sample_argv = Fin 0"
    by (simp add: sample_argv_def)
  have two: "Math_max (Fin 2) (Fin 0) = Fin 2"
    by (simp add: Math_max_def)
  show ?thesis
    using arraysToFetch_is_max_2_coverage[OF prepare_sample] prepare_sample
    by (simp add: cov two)
qed

section \<open>The fallback of the SOL/USD price\<close>

lemma fetchSolUsd_try_positive:
  "fetchSolUsd_try e = Inr mid \<Longrightarrow> \<exists>r. 0 < r \<and> mid = Fin r"
  by (cases mid) (auto simp: fetchSolUsd_try_def Let_def split: sum.splits if_splits)

text \<open>
  Claim C8. \<open>fetchSolUsd\<close> returns a number and never an error; the number is finite
  and positive. Whenever the \<^verbatim>\<open>try\<close> block fails (the pool cannot be created, its
  active bin cannot be fetched, or the mid price read from it is not finite or not
  positive) the result is the constant 195.
\<close>

theorem fetchSolUsd_total:
  "(\<exists>r. 0 < r \<and> fetchSolUsd e = Fin r)
 \<and> (\<forall>err. fetchSolUsd_try e = Inl err \<longrightarrow> fetchSolUsd e = Fin 195)
 \<and> (\<forall>err. DLMM_create e SOL_USDC_POOL = Inl err \<longrightarrow> fetchSolUsd e = Fin 195)
 \<and> (\<forall>d err. DLMM_create e SOL_USDC_POOL = Inr d \<and> getActiveBin d = Inl err \<longrightarrow>
        fetchSolUsd e = Fin 195)
 \<and> (\<forall>d b mid. DLMM_create e SOL_USDC_POOL = Inr d \<and> getActiveBin d = Inr b
        \<and> mid = Number (first_defined [get_prop b ''pricePerToken'', get_prop b ''price''])
        \<and> (\<not> isFinite mid \<or> js_le mid (Fin 0)) \<longrightarrow>
        fetchSolUsd e = Fin 195)"
proof -
  have pos: "\<exists>r. 0 < r \<and> fetchSolUsd e = Fin r"
  proof (cases "fetchSolUsd_try e")
    case (Inl err)
    then show ?thesis by (simp add: fetchSolUsd_def)
  next
    case (Inr mid)
    with fetchSolUsd_try_positive[OF Inr] show ?thesis by (simp add: fetchSolUsd_def)
  qed
  have caught: "\<forall>err. fetchSolUsd_try e = Inl err \<longrightarrow> fetchSolUsd e = Fin 195"
    by (simp add: fetchSolUsd_def)
  have create: "\<forall>err. DLMM_create e SOL_USDC_POOL = Inl err \<longrightarrow> fetchSolUsd e = Fin 195"
    by (simp add: fetchSolUsd_def fetchSolUsd_try_def)
  have bin: "\<forall>d err. DLMM_create e SOL_USDC_POOL = Inr d \<and> getActiveBin d = Inl err \<longrightarrow>
        fetchSolUsd e = Fin 195"
    by (simp add: fetchSolUsd_def fetchSolUsd_try_def)
  have mid: "\<forall>d b mid. DLMM_create e SOL_USDC_POOL = Inr d \<and> getActiveBin d = Inr b
        \<and> mid = Number (first_defined [get_prop b ''pricePerToken'', get_prop b ''price''])
        \<and> (\<not> isFinite mid \<or> js_le mid (Fin 0)) \<longrightarrow>
        fetchSolUsd e = Fin 195"
    by (auto simp: fetchSolUsd_def fetchSolUsd_try_def Let_def)
  from pos caught create bin mid show ?thesis by blast
qed

theorem fetchSolUsd_total_witness:
  "DLMM_create offline_env SOL_USDC_POOL = Inl (SdkError ''fetch failed'')
 \<and> fetchSolUsd offline_env = Fin 195
 \<and> DLMM_create unpriced_env SOL_USDC_POOL
      = Inr (sample_pool\<lparr>getActiveBin := Inr (JObj [(''price'', JStr ''n/a'')])\<rparr>)
 \<and> \<not> isFinite (Number (first_defined
        [get_prop (JObj [(''price'', JStr ''n/a'')]) ''pricePerToken'',
         get_prop (JObj [(''price'', JStr ''n/a'')]) ''price'']))
 \<and> fetchSolUsd unpriced_env = Fin 195"
proof -
  have off: "DLMM_create offline_env SOL_USDC_POOL = Inl (SdkError ''fetch failed'')"
    by (simp add: offline_env_def)
  have un: "DLMM_create unpriced_env SOL_USDC_POOL
      = Inr (sample_pool\<lparr>getActiveBin := Inr (JObj [(''price'', JStr ''n/a'')])\<rparr>)"
    by (simp add: unpriced_env_def)
  have bin: "getActiveBin (sample_pool\<lparr>getActiveBin := Inr (JObj [(''price'', JStr ''n/a'')])\<rparr>)
      = Inr (JObj [(''price'', JStr ''n/a'')])"
    by simp
  have nan: "\<not> isFinite (Number (first_defined
        [get_prop (JObj [(''price'', JStr ''n/a'')]) ''pricePerToken'',
         get_prop (JObj [(''price'', JStr ''n/a'')]) ''price'']))"
    by (simp add: nullish_def number_defs)
  have one: "fetchSolUsd offline_env = Fin 195"
    using fetchSolUsd_total[of offline_env, THEN conjunct2, THEN conjunct2, THEN conjunct1] off
    by simp
  have two: "fetchSolUsd unpriced_env = Fin 195"
    using fetchSolUsd_total[of unpriced_env, THEN conjunct2, THEN conjunct2, THEN conjunct2,
        THEN conjunct2, rule_format, OF conjI[OF un conjI[OF bin conjI[OF refl]]]] nan
    by simp
  from off one un nan two show ?thesis by simp
qed

section \<open>The reference price\<close>

lemma prepare_refPrice:
  "prepare e a = Inr c \<Longrightarrow> c_refPrice c = refPriceUSDperQuote e (arg_quoteMint a)"
  by (auto simp: prepare_def Let_def split: sum.splits if_splits)

text \<open>
  Claim C2, as amended. The reference price of the quote asset is 1 when the quote
  mint is USDC, the SOL/USD price of \<open>fetchSolUsd\<close> when it is the SOL mint, and 1
  again for every other mint; this is the price the run context holds.
\<close>

theorem refPrice_by_quote_mint:
  "(q = USDC_MINT \<longrightarrow> refPriceUSDperQuote e q = Fin 1)
 \<and> (q = SOL_MINT \<longrightarrow> refPriceUSDperQuote e q = fetchSolUsd e)
 \<and> (q \<noteq> USDC_MINT \<and> q \<noteq> SOL_MINT \<longrightarrow> refPriceUSDperQuote e q = Fin 1)
 \<and> (\<forall>a c. prepare e a = Inr c \<and> arg_quoteMint a = q \<longrightarrow>
        c_refPrice c = refPriceUSDperQuote e q)"
  using prepare_refPrice
  by (auto simp: refPriceUSDperQuote_def mint_defs)

lemma fetchSolUsd_offline: "fetchSolUsd offline_env = Fin 195"
  by (simp add: fetchSolUsd_def fetchSolUsd_try_def offline_env_def)

theorem refPrice_by_quote_mint_witness:
  "refPriceUSDperQuote offline_env USDC_MINT = Fin 1
 \<and> refPriceUSDperQuote offline_env SOL_MINT = Fin 195
 \<and> JUP_MINT \<noteq> USDC_MINT \<and> JUP_MINT \<noteq> SOL_MINT
 \<and> refPriceUSDperQuote offline_env JUP_MINT = Fin 1
 \<and> prepare sample_env sample_argv = Inr sample_ctx
 \<and> arg_quoteMint sample_argv = USDC_MINT
 \<and> c_refPrice sample_ctx = Fin 1"
proof -
  have distinct: "JUP_MINT \<noteq> USDC_MINT" "JUP_MINT \<noteq> SOL_MINT"
    by (simp_all add: mint_defs)
  have q: "arg_quoteMint sample_argv = USDC_MINT"
    by (simp add: sample_argv_def)
  show ?thesis
    using refPrice_by_quote_mint[of USDC_MINT offline_env]
      refPrice_by_quote_mint[of SOL_MINT offline_env]
      refPrice_by_quote_mint[of JUP_MINT offline_env]
      refPrice_by_quote_mint[of USDC_MINT sample_env]
      distinct q prepare_sample fetchSolUsd_offline
    by (simp add: sample_ctx_def)
qed

text \<open>
  The claim as first stated fails: the JUP mint is not USDC, yet its reference price
  is 1 and not the SOL/USD price (195 in the offline environment).
\<close>

theorem refPrice_not_sol_price_for_other_mint:
  "JUP_MINT \<noteq> USDC_MINT
 \<and> refPriceUSDperQuote offline_env JUP_MINT \<noteq> fetchSolUsd offline_env"
  by (simp add: refPriceUSDperQuote_def fetchSolUsd_offline mint_defs)

section \<open>The total fee\<close>

lemma prepare_fee: "prepare e a = Inr c \<Longrightarrow> c_fee_bps_total c = fee_bps_total a"
  by (auto simp: prepare_def Let_def split: sum.splits if_splits)

lemma quote_size_rt:
  "quote_size c usd = Inr m \<Longrightarrow> m_rt_bps m = js_add (m_impact_bps m) (c_fee_bps_total c)"
  by (auto simp: quote_size_def Let_def split: sum.splits)

lemma or_zero_number: "x \<noteq> NaN \<Longrightarrow> or_zero x = x"
  by (auto simp: or_zero_def)

text \<open>
  Claim C4. For a pool with an entry \<open>pinnedFee\<close> in the pinned per-leg fee table and any
  value of the dynamic fee option, \<open>fee_bps_total = 2 * (pinnedFee + dynamicFeePct * 100)\<close>,
  where \<open>dynamicFeePct\<close> is the script's variable: the option's value whenever that is a
  number. The value is fixed by the options before the loop: the context of every run
  holds it, and every size that is quoted adds this same value to its impact, whatever
  the quotes return.
\<close>

theorem fee_bps_total_formula:
  assumes "map_of PINNED_POOL_PER_LEG_BPS (arg_pool a) = Some pinnedFee"
  shows "fee_bps_total a
           = js_mul (Fin 2) (js_add (Fin pinnedFee) (js_mul (dynamicFeePct a) (Fin 100)))
       \<and> (arg_dynamicFeePct a \<noteq> NaN \<longrightarrow> dynamicFeePct a = arg_dynamicFeePct a)
       \<and> (\<forall>p. arg_dynamicFeePct a = Fin p \<longrightarrow>
              fee_bps_total a = Fin (2 * (pinnedFee + p * 100)))
       \<and> (\<forall>e c. prepare e a = Inr c \<longrightarrow>
              c_fee_bps_total c = fee_bps_total a
            \<and> (\<forall>usd m. quote_size c usd = Inr m \<longrightarrow>
                  m_rt_bps m = js_add (m_impact_bps m) (fee_bps_total a)))"
proof -
  have formula: "fee_bps_total a
      = js_mul (Fin 2) (js_add (Fin pinnedFee) (js_mul (dynamicFeePct a) (Fin 100)))"
    using assms by (simp add: fee_bps_total_def basePerLegBps_def dynPerLegBps_def)
  have number: "arg_dynamicFeePct a \<noteq> NaN \<longrightarrow> dynamicFeePct a = arg_dynamicFeePct a"
    by (simp add: dynamicFeePct_def or_zero_number)
  have finite: "\<forall>p. arg_dynamicFeePct a = Fin p \<longrightarrow>
      fee_bps_total a = Fin (2 * (pinnedFee + p * 100))"
    using formula by (simp add: dynamicFeePct_def or_zero_def)
  have run: "\<forall>e c. prepare e a = Inr c \<longrightarrow>
              c_fee_bps_total c = fee_bps_total a
            \<and> (\<forall>usd m. quote_size c usd = Inr m \<longrightarrow>
                  m_rt_bps m = js_add (m_impact_bps m) (fee_bps_total a))"
    using prepare_fee quote_size_rt by metis
  from formula number finite run show ?thesis by blast
qed

lemma sample_pinned: "map_of PINNED_POOL_PER_LEG_BPS (arg_pool sample_argv) = Some 1"
  by (simp add: PINNED_POOL_PER_LEG_BPS_def sample_argv_def sample_pool_address_def)

theorem fee_bps_total_formula_witness:
  "map_of PINNED_POOL_PER_LEG_BPS (arg_pool sample_argv) = Some 1
   \<and> arg_dynamicFeePct sample_argv = Fin (1 / 20)
   \<and> fee_bps_total sample_argv = Fin 12
   \<and> prepare sample_env sample_argv = Inr sample_ctx
   \<and> c_fee_bps_total sample_ctx = Fin 12"
proof -
  have dyn: "arg_dynamicFeePct sample_argv = Fin (1 / 20)"
    by (simp add: sample_argv_def)
  show ?thesis
    using fee_bps_total_formula[OF sample_pinned] sample_pinned dyn prepare_sample
    by auto
qed

section \<open>The sample run, size by size\<close>

lemma toAtomicBN_150: "toAtomicBN (Fin 150) 6 = Inr 150000000"
  by (simp add: amount_defs number_defs)

lemma fromAtomic_buy: "fromAtomicToNumber (JBN 998500000) 9 = Inr (Fin (1997 / 2000))"
  by (simp add: amount_defs number_defs)

lemma fromAtomic_sell: "fromAtomicToNumber (JBN 1001500000) 9 = Inr (Fin (2003 / 2000))"
  by (simp add: amount_defs number_defs)

lemma fromAtomic_flat: "fromAtomicToNumber (JBN 1000000000) 9 = Inr (Fin 1)"
  by (simp add: amount_defs number_defs)

lemma quote_size_sample: "quote_size sample_ctx (Fin 150) = Inr sample_metrics"
  by (simp add: quote_size_def sample_ctx_def sample_pool_def sample_metrics_def Let_def
      toAtomicBN_150 getAmountOut_def getAmountIn_def nullish_def fromAtomic_buy fromAtomic_sell
      MAX_EXTRA_BIN_ARRAYS_def toBps_def js_sub_def)

lemma quote_size_flat: "quote_size flat_ctx (Fin 150) = Inr flat_metrics"
  by (simp add: quote_size_def flat_ctx_def flat_pool_def sample_ctx_def sample_pool_def
      flat_metrics_def Let_def
      toAtomicBN_150 getAmountOut_def getAmountIn_def nullish_def fromAtomic_flat
      MAX_EXTRA_BIN_ARRAYS_def toBps_def js_sub_def)

lemma prepare_flat: "prepare flat_env sample_argv = Inr flat_ctx"
  unfolding prepare_def flat_env_def sample_env_def sample_argv_def flat_ctx_def sample_ctx_def
    flat_pool_def
  apply (simp add: sample_pool_def sample_lb_pair_def sample_pool_address_def
      decimals_of_def DEC_OVERRIDE_def nullish_def adjustedMid_def rawMid_def
      refPriceUSDperQuote_def midUSDperBase_def arraysToFetch_def Math_max_def
      basePerLegBps_def PINNED_POOL_PER_LEG_BPS_def dynPerLegBps_def dynamicFeePct_def
      or_zero_def fee_bps_total_def number_defs Let_def)
  apply (simp add: mint_defs)
  done


section \<open>The arithmetic of one size\<close>

lemma toBps_div: "toBps (js_div d mid) = js_div (js_mul (Fin 10000) d) mid"
  by (cases d; cases mid) (auto simp: toBps_def signed_inf_def zero_less_mult_iff)

lemma toBps_div_commute: "toBps (js_div d mid) = js_mul (Fin 10000) (js_div d mid)"
  by (cases d; cases mid) (auto simp: toBps_def signed_inf_def)

lemma js_sub_self: "js_sub (Fin p) (Fin p) = Fin 0"
  by (simp add: js_sub_def)

lemma zero_impact: "mid \<noteq> Fin 0 \<Longrightarrow> mid \<noteq> NaN \<Longrightarrow> toBps (js_div (Fin 0) mid) = Fin 0"
  by (cases mid) (auto simp: toBps_def)

lemma quote_size_steps:
  assumes "quote_size c usd = Inr m"
  shows "m_quoteIn m = js_div usd (c_refPrice c)"
    and "\<exists>amount. toAtomicBN (m_quoteIn m) (c_quoteDecs c) = Inr amount
          \<and> swapQuote (c_dlmm c) amount (c_buySwapForY c) 50 (c_buyBinArrays c) False
               MAX_EXTRA_BIN_ARRAYS = Inr (m_buyQ m)
          \<and> swapQuoteExactOut (c_dlmm c) amount (c_sellSwapForY c) 50 (c_sellBinArrays c)
               MAX_EXTRA_BIN_ARRAYS = Inr (m_sellQ m)"
    and "fromAtomicToNumber (getAmountOut (m_buyQ m)) (c_baseDecs c) = Inr (m_buyOutBase m)"
    and "m_buyPx m = js_div usd (m_buyOutBase m)"
    and "fromAtomicToNumber (getAmountIn (m_sellQ m)) (c_baseDecs c) = Inr (m_sellInBase m)"
    and "m_sellPx m = js_div usd (m_sellInBase m)"
    and "m_impact_bps m = toBps (js_div (js_sub (m_buyPx m) (m_sellPx m)) (c_mid c))"
  using assms
  by (auto simp: quote_size_def Let_def split: sum.splits)

text \<open>
  Claim C1, as amended. For a size that is quoted without error the script computes
  \<open>quoteIn = usd / refPriceUSDperQuote\<close>, sends it as the amount of both quotes, takes
  the buy price as \<open>usd\<close> over the base amount the exact-input quote returns and the sell
  price as \<open>usd\<close> over the base amount the exact-output quote asks for,
  \<open>impact_bps = 10000 * (buyPx - sellPx) / mid\<close> and
  \<open>roundtrip_bps = impact_bps + fee_bps_total\<close>. The impact is zero whenever the two
  prices are equal and finite and the mid price is neither zero nor \<^verbatim>\<open>NaN\<close>, so also
  when both prices equal a finite nonzero mid price.
\<close>

theorem roundtrip_arithmetic:
  assumes "quote_size c usd = Inr m"
  shows "m_quoteIn m = js_div usd (c_refPrice c)
       \<and> (\<exists>amount. toAtomicBN (m_quoteIn m) (c_quoteDecs c) = Inr amount
            \<and> swapQuote (c_dlmm c) amount (c_buySwapForY c) 50 (c_buyBinArrays c) False
                 MAX_EXTRA_BIN_ARRAYS = Inr (m_buyQ m)
            \<and> swapQuoteExactOut (c_dlmm c) amount (c_sellSwapForY c) 50 (c_sellBinArrays c)
                 MAX_EXTRA_BIN_ARRAYS = Inr (m_sellQ m))
       \<and> fromAtomicToNumber (getAmountOut (m_buyQ m)) (c_baseDecs c) = Inr (m_buyOutBase m)
       \<and> m_buyPx m = js_div usd (m_buyOutBase m)
       \<and> fromAtomicToNumber (getAmountIn (m_sellQ m)) (c_baseDecs c) = Inr (m_sellInBase m)
       \<and> m_sellPx m = js_div usd (m_sellInBase m)
       \<and> m_impact_bps m
            = js_div (js_mul (Fin 10000) (js_sub (m_buyPx m) (m_sellPx m))) (c_mid c)
       \<and> m_impact_bps m
            = js_mul (Fin 10000) (js_div (js_sub (m_buyPx m) (m_sellPx m)) (c_mid c))
       \<and> m_rt_bps m = js_add (m_impact_bps m) (c_fee_bps_total c)
       \<and> (m_buyPx m = m_sellPx m \<and> isFinite (m_buyPx m)
            \<and> c_mid c \<noteq> Fin 0 \<and> c_mid c \<noteq> NaN \<longrightarrow> m_impact_bps m = Fin 0)
       \<and> (m_buyPx m = c_mid c \<and> m_sellPx m = c_mid c
            \<and> isFinite (c_mid c) \<and> c_mid c \<noteq> Fin 0 \<longrightarrow> m_impact_bps m = Fin 0)"
proof -
  note steps = quote_size_steps[OF assms]
  have impact: "m_impact_bps m = toBps (js_div (js_sub (m_buyPx m) (m_sellPx m)) (c_mid c))"
    by (rule steps(7))
  have zero: "m_impact_bps m = Fin 0"
    if "m_buyPx m = m_sellPx m" "isFinite (m_buyPx m)" "c_mid c \<noteq> Fin 0" "c_mid c \<noteq> NaN"
  proof -
    from that(2) obtain p where p: "m_buyPx m = Fin p"
      by (cases "m_buyPx m") auto
    with that(1) have "js_sub (m_buyPx m) (m_sellPx m) = Fin 0"
      by (metis js_sub_self)
    with impact that(3,4) show ?thesis
      by (simp add: zero_impact)
  qed
  have zero_mid: "m_impact_bps m = Fin 0"
    if "m_buyPx m = c_mid c" "m_sellPx m = c_mid c" "isFinite (c_mid c)" "c_mid c \<noteq> Fin 0"
  proof -
    from that(3) have "c_mid c \<noteq> NaN" by auto
    with that zero show ?thesis by simp
  qed
  have form1: "m_impact_bps m
      = js_div (js_mul (Fin 10000) (js_sub (m_buyPx m) (m_sellPx m))) (c_mid c)"
    unfolding impact by (rule toBps_div)
  have form2: "m_impact_bps m
      = js_mul (Fin 10000) (js_div (js_sub (m_buyPx m) (m_sellPx m)) (c_mid c))"
    unfolding impact by (rule toBps_div_commute)
  have rt: "m_rt_bps m = js_add (m_impact_bps m) (c_fee_bps_total c)"
    by (rule quote_size_rt[OF assms])
  have z1: "m_buyPx m = m_sellPx m \<and> isFinite (m_buyPx m)
      \<and> c_mid c \<noteq> Fin 0 \<and> c_mid c \<noteq> NaN \<longrightarrow> m_impact_bps m = Fin 0"
    using zero by blast
  have z2: "m_buyPx m = c_mid c \<and> m_sellPx m = c_mid c
      \<and> isFinite (c_mid c) \<and> c_mid c \<noteq> Fin 0 \<longrightarrow> m_impact_bps m = Fin 0"
    using zero_mid by blast
  show ?thesis
    by (intro conjI) (fact steps(1) steps(2) steps(3) steps(4) steps(5) steps(6) form1 form2 rt z1 z2)+
qed

lemma quote_size_level:
  "quote_size (flat_ctx\<lparr>c_mid := Fin 150\<rparr>) (Fin 150)
     = Inr (flat_metrics\<lparr>m_impact_bps := Fin 0, m_rt_bps := Fin 12\<rparr>)"
  by (simp add: quote_size_def flat_ctx_def flat_pool_def sample_ctx_def sample_pool_def
      flat_metrics_def Let_def
      toAtomicBN_150 getAmountOut_def getAmountIn_def nullish_def fromAtomic_flat
      MAX_EXTRA_BIN_ARRAYS_def toBps_def js_sub_def)

theorem roundtrip_arithmetic_witness:
  "quote_size sample_ctx (Fin 150) = Inr sample_metrics
 \<and> m_quoteIn sample_metrics = js_div (Fin 150) (c_refPrice sample_ctx)
 \<and> m_buyPx sample_metrics = js_div (Fin 150) (m_buyOutBase sample_metrics)
 \<and> m_sellPx sample_metrics = js_div (Fin 150) (m_sellInBase sample_metrics)
 \<and> m_impact_bps sample_metrics
      = js_div (js_mul (Fin 10000) (js_sub (m_buyPx sample_metrics) (m_sellPx sample_metrics)))
          (c_mid sample_ctx)
 \<and> m_rt_bps sample_metrics = js_add (m_impact_bps sample_metrics) (c_fee_bps_total sample_ctx)
 \<and> quote_size (flat_ctx\<lparr>c_mid := Fin 150\<rparr>) (Fin 150)
      = Inr (flat_metrics\<lparr>m_impact_bps := Fin 0, m_rt_bps := Fin 12\<rparr>)
 \<and> m_buyPx (flat_metrics\<lparr>m_impact_bps := Fin 0, m_rt_bps := Fin 12\<rparr>) = Fin 150
 \<and> m_sellPx (flat_metrics\<lparr>m_impact_bps := Fin 0, m_rt_bps := Fin 12\<rparr>) = Fin 150
 \<and> c_mid (flat_ctx\<lparr>c_mid := Fin 150\<rparr>) = Fin 150
 \<and> m_impact_bps (flat_metrics\<lparr>m_impact_bps := Fin 0, m_rt_bps := Fin 12\<rparr>) = Fin 0"
proof -
  have prices: "m_buyPx (flat_metrics\<lparr>m_impact_bps := Fin 0, m_rt_bps := Fin 12\<rparr>) = Fin 150"
    "m_sellPx (flat_metrics\<lparr>m_impact_bps := Fin 0, m_rt_bps := Fin 12\<rparr>) = Fin 150"
    "c_mid (flat_ctx\<lparr>c_mid := Fin 150\<rparr>) = Fin 150"
    by (simp_all add: flat_metrics_def)
  have "m_impact_bps (flat_metrics\<lparr>m_impact_bps := Fin 0, m_rt_bps := Fin 12\<rparr>) = Fin 0"
    using roundtrip_arithmetic[OF quote_size_level] prices by simp
  then show ?thesis
    using roundtrip_arithmetic[OF quote_size_sample] quote_size_sample quote_size_level prices
    by simp
qed

text \<open>
  The claim as first stated fails where the mid price is zero: for the pool without a
  price both prices are 150, yet the impact is \<^verbatim>\<open>0/0\<close>, which is \<^verbatim>\<open>NaN\<close> and not zero.
\<close>

theorem equal_prices_impact_not_zero:
  "prepare flat_env sample_argv = Inr flat_ctx
 \<and> quote_size flat_ctx (Fin 150) = Inr flat_metrics
 \<and> m_buyPx flat_metrics = m_sellPx flat_metrics
 \<and> m_impact_bps flat_metrics \<noteq> Fin 0"
  using prepare_flat quote_size_flat
  by (simp add: flat_metrics_def)

section \<open>Failures inside the loop\<close>












lemma toAtomicBN_3000: "toAtomicBN (Fin 3000) 6 = Inr 3000000000"
  by (simp add: amount_defs number_defs)

lemma quote_size_too_large:
  "quote_size sample_ctx (Fin 3000) = Inl (SdkError ''insufficient liquidity'')"
  by (simp add: quote_size_def sample_ctx_def sample_pool_def Let_def toAtomicBN_3000)

lemma sizesUSD_sample: "sizesUSD sample_argv = Inr [Fin 3000, Fin 150]"
  by (simp add: sizesUSD_def sample_argv_def parseSizes_def str_includes_def number_defs
      finite_positive_def)


section \<open>The columns of the CSV file\<close>

lemma split_not_Nil: "split sep s \<noteq> []"
  by (induction s) (auto split: list.splits)

lemma length_split: "length (split sep s) = Suc (length (filter (\<lambda>x. x = sep) s))"
  by (induction s) (auto split: list.splits simp: split_not_Nil)

lemma columns_commas: "columns line = Suc (commas line)"
  by (simp add: columns_def commas_def length_split)

lemma commas_append: "commas (s @ t) = commas s + commas t"
  by (simp add: commas_def)

lemma commas_join:
  "cells \<noteq> [] \<Longrightarrow>
   commas (join (CHR '','') cells) = length cells - 1 + sum_list (map commas cells)"
proof (induction "CHR '',''" cells rule: join.induct)
  case 1
  then show ?case by simp
next
  case (2 p)
  then show ?case by simp
next
  case (3 p q ps)
  then show ?case by (simp add: commas_append) (simp add: commas_def)
qed

lemma commas_newline: "commas [newline] = 0"
  by (simp add: commas_def newline_def)

lemma columns_csv_line:
  "cells \<noteq> [] \<Longrightarrow> columns (csv_line cells) = length cells + sum_list (map commas cells)"
  by (cases cells) (simp_all add: columns_commas csv_line_def commas_append commas_join commas_newline)

lemma commas_free: "\<forall>f\<in>set cells. CHR '','' \<notin> set f \<Longrightarrow> sum_list (map commas cells) = 0"
  by (induction cells) (auto simp: commas_def filter_empty_conv)

lemma csv_header_columns: "columns (csv_header @ [newline]) = 35"
  by (simp add: columns_def csv_header_def newline_def)

lemma csv_fields_length: "csv_fields e c usd m t = Inr cells \<Longrightarrow> length cells = 35"
  by (auto simp: csv_fields_def Let_def split: sum.splits)


lemma sample_num_text_values:
  "sample_num_text (Fin 10) = ''10''" "sample_num_text (Fin 12) = ''12''"
  "sample_num_text (Fin 0) = ''0''" "sample_num_text (Fin 1) = ''1''"
  "sample_num_text (Fin 9) = ''9''" "sample_num_text (Fin 6) = ''6''"
  "sample_num_text (Fin 150) = ''150''" "sample_num_text (Fin 8388) = ''8388''"
  "sample_num_text (Fin (300000 / 1997)) = ''150.225338''"
  "sample_num_text (Fin (300000 / 2003)) = ''149.775337''"
  "sample_num_text (Fin (120000000 / 3999991)) = ''30.000068''"
  "sample_num_text (Fin (167999892 / 3999991)) = ''42.000068''"
  "sample_num_text (Fin (1997 / 2000)) = ''0.998500''"
  "sample_num_text (Fin (2003 / 2000)) = ''1.001500''"
  by (simp_all add: sample_num_text_def toFixed_def padStart_def show_nat_numeral show_nat_small
      digit_char_def)

lemma csv_fields_sample:
  "csv_fields sample_env sample_ctx (Fin 150) sample_metrics t = Inr sample_cells"
  by (simp add: csv_fields_def sample_env_def sample_ctx_def sample_pool_def sample_lb_pair_def
      sample_metrics_def sample_cells_def sample_num_text_values toFixed_text_def toFixed_def
      padStart_def show_nat_numeral show_nat_small show_int_def digit_char_def
      protocol_fee_ppm_def nullish_def text_or_empty_def getFeeAmount_def symbol_of_def
      SYMBOL_MAP_def decimals_text_def mint_defs sample_pool_address_def Let_def)

lemma sample_cells_no_comma: "\<forall>f\<in>set sample_cells. CHR '','' \<notin> set f"
  by (simp add: sample_cells_def)

text \<open>
  Claim C6, as amended. The header has 35 columns. Every data row is the join of 35
  cells, so its number of comma-separated fields is 35 plus the number of commas
  inside the cells (nothing is quoted or escaped): whenever no cell holds a comma the
  row has as many fields as the header. The row the loop writes for a size is the line
  of these cells.
\<close>

theorem csv_row_matches_header:
  "columns (csv_header @ [newline]) = 35
 \<and> (csv_fields e c usd m t = Inr cells \<longrightarrow>
       length cells = 35
     \<and> columns (csv_line cells) = 35 + sum_list (map commas cells)
     \<and> ((\<forall>f\<in>set cells. CHR '','' \<notin> set f) \<longrightarrow>
           columns (csv_line cells) = columns (csv_header @ [newline])))
 \<and> (quote_size c usd = Inr m \<and> c_csv c = Some csvPath
       \<and> csv_fields e c usd m (sleeps st) = Inr cells \<longrightarrow>
       files (size_step e c usd st) = append_file (files st) csvPath (csv_line cells))"
proof -
  have row: "length cells = 35
     \<and> columns (csv_line cells) = 35 + sum_list (map commas cells)
     \<and> ((\<forall>f\<in>set cells. CHR '','' \<notin> set f) \<longrightarrow>
           columns (csv_line cells) = columns (csv_header @ [newline]))"
    if ok: "csv_fields e c usd m t = Inr cells"
  proof -
    have len: "length cells = 35"
      by (rule csv_fields_length[OF ok])
    then have "cells \<noteq> []" by auto
    then have cols: "columns (csv_line cells) = 35 + sum_list (map commas cells)"
      using len by (simp add: columns_csv_line)
    show ?thesis
      using len cols by (simp add: commas_free csv_header_columns)
  qed
  have written: "files (size_step e c usd st) = append_file (files st) csvPath (csv_line cells)"
    if "quote_size c usd = Inr m" "c_csv c = Some csvPath"
      "csv_fields e c usd m (sleeps st) = Inr cells"
    using that by (simp add: size_step_def Let_def)
  show ?thesis
    using csv_header_columns row written by blast
qed

theorem csv_row_matches_header_witness:
  "csv_fields sample_env sample_ctx (Fin 150) sample_metrics 1 = Inr sample_cells
 \<and> list_all (\<lambda>f. CHR '','' \<notin> set f) sample_cells
 \<and> length sample_cells = 35
 \<and> columns (csv_line sample_cells) = 35
 \<and> columns (csv_line sample_cells) = columns (csv_header @ [newline])"
  using csv_row_matches_header[of sample_env sample_ctx "Fin 150" sample_metrics 1 sample_cells]
    csv_fields_sample sample_cells_no_comma
  by (simp add: commas_free list_all_iff)

text \<open>The claim as first stated fails: the header has 35 columns, not 37.\<close>

theorem csv_header_has_not_37_columns:
  "columns (csv_header @ [newline]) \<noteq> 37"
  by (simp add: columns_def csv_header_def newline_def)

section \<open>The header of the CSV file\<close>

lemma needHeader_iff: "needHeader fsys p \<longleftrightarrow> fsys p = None \<or> fsys p = Some []"
  by (auto simp: needHeader_def existsSync_def file_size_def split: option.splits)

lemma needHeader_content: "needHeader fsys p \<longleftrightarrow> content_of fsys p = []"
  by (auto simp: needHeader_iff content_of_def split: option.splits)

lemma append_file_same: "append_file fsys p txt p = Some (content_of fsys p @ txt)"
  by (simp add: append_file_def content_of_def)

lemma content_append_file: "content_of (append_file fsys p txt) p = content_of fsys p @ txt"
  by (simp add: content_of_def append_file_same)

lemma open_csv_content:
  "open_csv fsys (Some p) p
     = Some (content_of fsys p @ (if needHeader fsys p then csv_header @ [newline] else []))"
  by (simp add: open_csv_def open_csv_writes_def append_file_same)

lemma size_step_appends:
  "c_csv c = Some p \<Longrightarrow> \<exists>rows. content_of (files (size_step e c usd st)) p = content_of (files st) p @ rows"
  by (auto simp: size_step_def Let_def content_append_file split: sum.splits)

lemma size_loop_appends:
  "c_csv c = Some p \<Longrightarrow> \<exists>rows. content_of (files (size_loop e c sizes st)) p = content_of (files st) p @ rows"
proof (induction sizes arbitrary: st)
  case Nil
  then show ?case by simp
next
  case (Cons usd sizes)
  from size_step_appends[OF Cons.prems, of e usd st] obtain r1
    where r1: "content_of (files (size_step e c usd st)) p = content_of (files st) p @ r1"
    by blast
  from Cons.IH[OF Cons.prems, of "size_step e c usd st"] obtain r2
    where "content_of (files (size_loop e c sizes (size_step e c usd st))) p
        = content_of (files (size_step e c usd st)) p @ r2"
    by blast
  with r1 show ?case by simp
qed

lemma prepare_csv: "prepare e a = Inr c \<Longrightarrow> c_csv c = arg_csv a"
  by (auto simp: prepare_def Let_def split: sum.splits if_splits)

lemma main_content:
  assumes "main e a files0 = Inr st" "arg_csv a = Some p"
  shows "\<exists>rows. content_of (files st) p
           = content_of files0 p @ (if needHeader files0 p then csv_header @ [newline] else []) @ rows"
proof -
  from assms(1) obtain sizes c where c: "prepare e a = Inr c"
    and st: "st = size_loop e c sizes \<lparr>console = [], files = open_csv files0 (c_csv c), sleeps = 0\<rparr>"
    by (auto simp: main_def split: sum.splits)
  have csv: "c_csv c = Some p"
    using prepare_csv[OF c] assms(2) by simp
  from size_loop_appends[OF csv, of e sizes "\<lparr>console = [], files = open_csv files0 (c_csv c), sleeps = 0\<rparr>"]
  obtain rows where "content_of (files st) p = content_of (open_csv files0 (Some p)) p @ rows"
    using st csv by auto
  then show ?thesis
    by (auto simp: content_of_def open_csv_content)
qed

lemma main_leaves_content:
  assumes "main e a files0 = Inr st" "arg_csv a = Some p"
  shows "\<not> needHeader (files st) p"
proof -
  from main_content[OF assms] obtain rows where
    "content_of (files st) p
       = content_of files0 p @ (if needHeader files0 p then csv_header @ [newline] else []) @ rows"
    by blast
  then show ?thesis
    by (auto simp: needHeader_content)
qed

lemma header_writes_none:
  "\<forall>(e, a)\<in>set runs. arg_csv a = Some p \<Longrightarrow> \<not> needHeader files0 p \<Longrightarrow>
   header_writes runs files0 = 0"
proof (induction runs arbitrary: files0)
  case Nil
  then show ?case by simp
next
  case (Cons run runs)
  obtain e a where run: "run = (e, a)" by (cases run)
  with Cons.prems have csv: "arg_csv a = Some p" and rest: "\<forall>(e, a)\<in>set runs. arg_csv a = Some p"
    by auto
  show ?case
  proof (cases "main e a files0")
    case (Inl err)
    with Cons.IH[OF rest Cons.prems(2)] run show ?thesis by simp
  next
    case (Inr st)
    from main_leaves_content[OF Inr csv] have "\<not> needHeader (files st) p" .
    from Cons.IH[OF rest this] Inr run csv Cons.prems(2) show ?thesis
      by (simp add: open_csv_writes_def)
  qed
qed


lemma main_succeeds_any_files:
  "main e a files0 = Inr st \<Longrightarrow> \<exists>st'. main e a files1 = Inr st'"
  by (auto simp: main_def split: sum.splits)

lemma header_writes_at_most_once:
  "\<forall>(e, a)\<in>set runs. arg_csv a = Some p \<Longrightarrow> header_writes runs files0 \<le> 1"
proof (induction runs arbitrary: files0)
  case Nil
  then show ?case by simp
next
  case (Cons run runs)
  obtain e a where run: "run = (e, a)" by (cases run)
  with Cons.prems have csv: "arg_csv a = Some p" and rest: "\<forall>(e, a)\<in>set runs. arg_csv a = Some p"
    by auto
  show ?case
  proof (cases "main e a files0")
    case (Inl err)
    with Cons.IH[OF rest, of files0] run show ?thesis by simp
  next
    case (Inr st)
    from main_leaves_content[OF Inr csv] have "\<not> needHeader (files st) p" .
    from header_writes_none[OF rest this] Inr run csv show ?thesis
      by (simp add: open_csv_writes_def)
  qed
qed

lemma header_writes_once:
  "\<forall>(e, a)\<in>set runs. arg_csv a = Some p \<Longrightarrow> needHeader files0 p \<Longrightarrow>
   \<exists>(e, a)\<in>set runs. \<exists>st. main e a files0 = Inr st \<Longrightarrow>
   header_writes runs files0 = 1"
proof (induction runs arbitrary: files0)
  case Nil
  then show ?case by simp
next
  case (Cons run runs)
  obtain e a where run: "run = (e, a)" by (cases run)
  with Cons.prems have csv: "arg_csv a = Some p" and rest: "\<forall>(e, a)\<in>set runs. arg_csv a = Some p"
    by auto
  show ?case
  proof (cases "main e a files0")
    case (Inl err)
    with Cons.prems(3) run have "\<exists>(e, a)\<in>set runs. \<exists>st. main e a files0 = Inr st"
      by auto
    from Cons.IH[OF rest Cons.prems(2) this] Inl run show ?thesis by simp
  next
    case (Inr st)
    from main_leaves_content[OF Inr csv] have "\<not> needHeader (files st) p" .
    from header_writes_none[OF rest this] Inr run csv Cons.prems(2) show ?thesis
      by (simp add: open_csv_writes_def)
  qed
qed

text \<open>
  Claim C7. With the CSV option the file is written in append mode: what it held before
  the run stays in front, then comes what the opening writes, then the rows. The
  opening writes the header line if and only if the file does not exist or is empty.
  After a run the file is not empty, so across any number of runs on the same file the
  header is written at most once: never when the file was not empty to begin with, and
  exactly once when it was absent or empty and one of the runs gets to open it.
\<close>

theorem csv_header_written_once:
  "(needHeader fsys p \<longleftrightarrow> fsys p = None \<or> fsys p = Some [])
 \<and> open_csv_writes fsys (Some p) = (if needHeader fsys p then [csv_header @ [newline]] else [])
 \<and> open_csv fsys (Some p) p = Some (content_of fsys p @ concat (open_csv_writes fsys (Some p)))
 \<and> (main e a files0 = Inr st \<and> arg_csv a = Some p \<longrightarrow>
       (\<exists>rows. content_of (files st) p
                 = content_of files0 p @ concat (open_csv_writes files0 (Some p)) @ rows)
     \<and> \<not> needHeader (files st) p)
 \<and> ((\<forall>(e, a)\<in>set runs. arg_csv a = Some p) \<longrightarrow>
       header_writes runs files0 \<le> 1
     \<and> (\<not> needHeader files0 p \<longrightarrow> header_writes runs files0 = 0)
     \<and> (needHeader files0 p \<and> (\<exists>(e, a)\<in>set runs. \<exists>st. main e a files0 = Inr st) \<longrightarrow>
           header_writes runs files0 = 1))"
proof -
  have at_open: "open_csv_writes fsys (Some p)
      = (if needHeader fsys p then [csv_header @ [newline]] else [])"
    by (simp add: open_csv_writes_def)
  have opened: "open_csv fsys (Some p) p
      = Some (content_of fsys p @ concat (open_csv_writes fsys (Some p)))"
    by (simp add: open_csv_def append_file_same)
  have run: "(\<exists>rows. content_of (files st) p
                 = content_of files0 p @ concat (open_csv_writes files0 (Some p)) @ rows)
     \<and> \<not> needHeader (files st) p"
    if "main e a files0 = Inr st" "arg_csv a = Some p"
    using main_content[OF that] main_leaves_content[OF that]
    by (auto simp: open_csv_writes_def)
  have many: "header_writes runs files0 \<le> 1
     \<and> (\<not> needHeader files0 p \<longrightarrow> header_writes runs files0 = 0)
     \<and> (needHeader files0 p \<and> (\<exists>(e, a)\<in>set runs. \<exists>st. main e a files0 = Inr st) \<longrightarrow>
           header_writes runs files0 = 1)"
    if "\<forall>(e, a)\<in>set runs. arg_csv a = Some p"
    using header_writes_at_most_once[OF that] header_writes_none[OF that]
      header_writes_once[OF that]
    by blast
  show ?thesis
    using needHeader_iff[of fsys p] at_open opened run many by blast
qed

lemma sample_csv: "c_csv sample_ctx = Some ''out.csv''"
  by (simp add: sample_ctx_def)

lemma size_loop_sample:
  "size_loop sample_env sample_ctx [Fin 3000, Fin 150]
     \<lparr>console = [], files = open_csv Map.empty (Some ''out.csv''), sleeps = 0\<rparr>
   = \<lparr>console = [ERROR_line (Fin 3000) (SdkError ''insufficient liquidity''),
                 RT_line (Fin 150) sample_metrics],
      files = [''out.csv'' \<mapsto> csv_header @ [newline] @ csv_line sample_cells],
      sleeps = 2\<rparr>"
proof -
  have start: "open_csv Map.empty (Some ''out.csv'') = [''out.csv'' \<mapsto> csv_header @ [newline]]"
    by (simp add: open_csv_def open_csv_writes_def needHeader_def existsSync_def append_file_def)
  have first: "size_step sample_env sample_ctx (Fin 3000)
        \<lparr>console = [], files = [''out.csv'' \<mapsto> csv_header @ [newline]], sleeps = 0\<rparr>
      = \<lparr>console = [ERROR_line (Fin 3000) (SdkError ''insufficient liquidity'')],
         files = [''out.csv'' \<mapsto> csv_header @ [newline]], sleeps = 1\<rparr>"
    by (simp add: size_step_def quote_size_too_large)
  have second: "size_step sample_env sample_ctx (Fin 150)
        \<lparr>console = [ERROR_line (Fin 3000) (SdkError ''insufficient liquidity'')],
         files = [''out.csv'' \<mapsto> csv_header @ [newline]], sleeps = 1\<rparr>
      = \<lparr>console = [ERROR_line (Fin 3000) (SdkError ''insufficient liquidity''),
                    RT_line (Fin 150) sample_metrics],
         files = [''out.csv'' \<mapsto> csv_header @ [newline] @ csv_line sample_cells],
         sleeps = 2\<rparr>"
    apply (subst size_step_def)
    apply (simp only: quote_size_sample sum.case Let_def sample_csv option.case)
    apply (simp add: csv_fields_sample append_file_def)
    done
  show ?thesis
    by (simp only: size_loop.simps start first second)
qed

lemma main_sample:
  "main sample_env sample_argv Map.empty
   = Inr \<lparr>console = [ERROR_line (Fin 3000) (SdkError ''insufficient liquidity''),
                     RT_line (Fin 150) sample_metrics],
          files = [''out.csv'' \<mapsto> csv_header @ [newline] @ csv_line sample_cells],
          sleeps = 2\<rparr>"
proof -
  show ?thesis
    by (simp only: main_def sizesUSD_sample prepare_sample sum.case sample_csv size_loop_sample)
qed

theorem csv_header_written_once_witness:
  "needHeader Map.empty ''out.csv''
 \<and> arg_csv sample_argv = Some ''out.csv''
 \<and> main sample_env sample_argv Map.empty
      = Inr \<lparr>console = [ERROR_line (Fin 3000) (SdkError ''insufficient liquidity''),
                        RT_line (Fin 150) sample_metrics],
             files = [''out.csv'' \<mapsto> csv_header @ [newline] @ csv_line sample_cells],
             sleeps = 2\<rparr>
 \<and> \<not> needHeader [''out.csv'' \<mapsto> csv_header @ [newline] @ csv_line sample_cells] ''out.csv''
 \<and> header_writes [(sample_env, sample_argv), (sample_env, sample_argv)] Map.empty = 1
 \<and> header_writes [(sample_env, sample_argv), (sample_env, sample_argv)]
      [''out.csv'' \<mapsto> csv_header @ [newline] @ csv_line sample_cells] = 0"
proof -
  let ?runs = "[(sample_env, sample_argv), (sample_env, sample_argv)]"
  let ?after = "[''out.csv'' \<mapsto> csv_header @ [newline] @ csv_line sample_cells]"
  have csv: "arg_csv sample_argv = Some ''out.csv''"
    by (simp add: sample_argv_def)
  then have all: "\<forall>(e, a)\<in>set ?runs. arg_csv a = Some ''out.csv''"
    by simp
  have need: "needHeader Map.empty ''out.csv''"
    by (simp add: needHeader_def existsSync_def)
  have full: "\<not> needHeader ?after ''out.csv''"
    by (simp add: needHeader_def existsSync_def file_size_def)
  have ok: "\<exists>(e, a)\<in>set ?runs. \<exists>st. main e a Map.empty = Inr st"
    using main_sample by simp
  have once: "header_writes ?runs Map.empty = 1"
    using csv_header_written_once[of Map.empty "''out.csv''" sample_env sample_argv Map.empty _ ?runs]
      all need ok by blast
  have never: "header_writes ?runs ?after = 0"
    using csv_header_written_once[of ?after "''out.csv''" sample_env sample_argv ?after _ ?runs]
      all full by blast
  from need csv main_sample full once never show ?thesis
    by blast
qed

section \<open>Parsing the sizes\<close>










section \<open>Decimal digits and their value\<close>

lemma digit_char_digit:
  assumes "n < 10"
  shows "is_digit (digit_char n)" and "digit_val (digit_char n) = n"
proof -
  from assms have "n \<in> {0, 1, 2, 3, 4, 5, 6, 7, 8, 9}"
    by auto
  then show "is_digit (digit_char n)" and "digit_val (digit_char n) = n"
    by (auto simp: digit_char_def is_digit_def digit_val_def)
qed

lemma digits_val_snoc: "digits_val (s @ [c]) = 10 * digits_val s + digit_val c"
  by (simp add: digits_val_def)

lemma digits_val_append:
  "digits_val (a @ b) = digits_val a * 10 ^ length b + digits_val b"
proof (induction b rule: rev_induct)
  case Nil
  then show ?case by (simp add: digits_val_def)
next
  case (snoc c b)
  have "digits_val (a @ b @ [c]) = 10 * digits_val (a @ b) + digit_val c"
    using digits_val_snoc[of "a @ b" c] by simp
  with snoc show ?case
    by (simp add: digits_val_snoc algebra_simps)
qed

lemma digits_val_zeros: "digits_val (replicate k (CHR ''0'')) = 0"
proof (induction k)
  case 0
  then show ?case by (simp add: digits_val_def)
next
  case (Suc k)
  have "replicate (Suc k) (CHR ''0'') = replicate k (CHR ''0'') @ [CHR ''0'']"
    by (simp add: replicate_append_same)
  then have "digits_val (replicate (Suc k) (CHR ''0''))
      = 10 * digits_val (replicate k (CHR ''0'')) + digit_val (CHR ''0'')"
    by (simp only: digits_val_snoc)
  with Suc show ?case by (simp add: digit_val_def)
qed

lemma digits_val_padded: "digits_val (replicate k (CHR ''0'') @ s) = digits_val s"
  by (simp add: digits_val_append digits_val_zeros)

lemma show_nat_digits: "list_all is_digit (show_nat n)"
proof (induction n rule: show_nat.induct)
  case (1 n)
  then show ?case
    by (subst show_nat.simps) (simp add: digit_char_digit)
qed

lemma show_nat_val: "digits_val (show_nat n) = n"
proof (induction n rule: show_nat.induct)
  case (1 n)
  show ?case
  proof (cases "n < 10")
    case True
    then show ?thesis
      by (subst show_nat.simps) (simp add: digits_val_def digit_char_digit)
  next
    case False
    with 1 show ?thesis
      by (subst show_nat.simps) (simp add: digits_val_snoc digit_char_digit)
  qed
qed

lemma show_nat_not_Nil: "show_nat n \<noteq> []"
  by (subst show_nat.simps) simp

lemma zero_is_digit: "is_digit (CHR ''0'')"
  by (simp add: is_digit_def)

lemma padStart_digits:
  "list_all is_digit s \<Longrightarrow> list_all is_digit (padStart s k)"
  by (auto simp: padStart_def list_all_iff zero_is_digit)

lemma padStart_val: "digits_val (padStart s k) = digits_val s"
  by (simp add: padStart_def digits_val_padded)

lemma padStart_length: "length (padStart s k) = max (nat k) (length s)"
  by (simp add: padStart_def)


section \<open>Texts of digits\<close>

lemma digit_not_special:
  "is_digit c \<Longrightarrow> c \<noteq> CHR ''.'' \<and> c \<noteq> CHR ''-'' \<and> c \<noteq> CHR ''+'' \<and> \<not> is_ws c"
  by (auto simp: is_digit_def is_ws_def)

lemma digits_no_point: "list_all is_digit s \<Longrightarrow> CHR ''.'' \<notin> set s"
  using digit_not_special by (auto simp: list_all_iff)

lemma digits_no_space: "list_all is_digit s \<Longrightarrow> filter (\<lambda>c. \<not> is_ws c) s = s"
  using digit_not_special by (auto simp: list_all_iff filter_id_conv)

lemma remove_first_absent: "c \<notin> set s \<Longrightarrow> remove_first c s = s"
  by (induction s) auto

lemma remove_first_split: "c \<notin> set a \<Longrightarrow> remove_first c (a @ c # b) = a @ b"
  by (induction a) auto

lemma BN_of_string_digits:
  assumes "list_all is_digit m" "m \<noteq> []"
  shows "BN_of_string m = Inr (int (digits_val m))"
    and "BN_of_string (CHR ''-'' # m) = Inr (- int (digits_val m))"
proof -
  from assms have "is_digit (hd m)"
    by (cases m) auto
  then have first: "hd m \<noteq> CHR ''-''"
    using digit_not_special by blast
  have minus: "\<not> is_ws (CHR ''-'')" by (simp add: is_ws_def)
  have plain: "filter (\<lambda>c. \<not> is_ws c) m = m"
    by (rule digits_no_space[OF assms(1)])
  show "BN_of_string m = Inr (int (digits_val m))"
    unfolding BN_of_string_def Let_def plain
    using assms first by simp
  have signed: "filter (\<lambda>c. \<not> is_ws c) (CHR ''-'' # m) = CHR ''-'' # m"
    using plain minus by simp
  show "BN_of_string (CHR ''-'' # m) = Inr (- int (digits_val m))"
    unfolding BN_of_string_def Let_def signed
    using assms by simp
qed

lemma toAtomicBN_finite:
  assumes d: "0 \<le> d" "d \<le> 100" and x: "\<bar>x\<bar> < 10 ^ 21"
  shows "toAtomicBN (Fin x) d
           = Inr (if x < 0 then - \<lfloor>\<bar>x\<bar> * 10 ^ nat d + 1 / 2\<rfloor> else \<lfloor>\<bar>x\<bar> * 10 ^ nat d + 1 / 2\<rfloor>)"
proof -
  define n where "n = nat \<lfloor>\<bar>x\<bar> * 10 ^ nat d + 1 / 2\<rfloor>"
  define m where "m = padStart (show_nat n) (d + 1)"
  define k where "k = length m - nat d"
  define body where "body = (if d = 0 then m else take k m @ CHR ''.'' # drop k m)"
  have "0 \<le> \<bar>x\<bar> * 10 ^ nat d + 1 / 2" by simp
  then have n_int: "int n = \<lfloor>\<bar>x\<bar> * 10 ^ nat d + 1 / 2\<rfloor>"
    by (simp add: n_def)
  have digits: "list_all is_digit m"
    by (simp add: m_def padStart_digits show_nat_digits)
  have ne: "m \<noteq> []"
    by (simp add: m_def padStart_def show_nat_not_Nil)
  have val: "digits_val m = n"
    by (simp add: m_def padStart_val show_nat_val)
  have "CHR ''.'' \<notin> set (take k m)"
    using digits_no_point[OF digits] by (meson in_set_takeD)
  then have body: "remove_first (CHR ''.'') body = m"
    by (simp add: body_def remove_first_split remove_first_absent digits_no_point[OF digits])
  have fixed: "toFixed (Fin x) d = Inr (Plain (if x < 0 then CHR ''-'' # body else body))"
    using d x by (simp add: toFixed_def Let_def n_def m_def k_def body_def)
  show ?thesis
  proof (cases "x < 0")
    case True
    then show ?thesis
      using fixed body BN_of_string_digits(2)[OF digits ne] val n_int
      by (simp add: toAtomicBN_def)
  next
    case False
    then show ?thesis
      using fixed body BN_of_string_digits(1)[OF digits ne] val n_int
      by (simp add: toAtomicBN_def)
  qed
qed


section \<open>Numbers read back from digits\<close>

lemma trim_id: "s \<noteq> [] \<Longrightarrow> \<not> is_ws (hd s) \<Longrightarrow> \<not> is_ws (last s) \<Longrightarrow> trim s = s"
proof -
  assume s: "s \<noteq> []" and h: "\<not> is_ws (hd s)" and l: "\<not> is_ws (last s)"
  from s h have "dropWhile is_ws s = s"
    by (cases s) auto
  moreover from s l have "dropWhile is_ws (rev s) = rev s"
    by (cases "rev s") (auto simp: hd_rev[symmetric])
  ultimately show "trim s = s"
    by (simp add: trim_def)
qed

lemma digit_no_mark: "is_digit c \<Longrightarrow> \<not> radix_mark c"
  by (auto simp: is_digit_def radix_mark_def)

lemma point_no_mark: "\<not> radix_mark (CHR ''.'')"
  by (simp add: radix_mark_def)

lemma non_decimal_unmarked: "\<not> radix_mark m \<Longrightarrow> non_decimal (z # m # ds) = None"
  by (simp add: non_decimal_def radix_mark_def)

lemma non_decimal_short: "non_decimal [z] = None"
  by (simp add: non_decimal_def)

lemma non_decimal_minus: "non_decimal (CHR ''-'' # s) = None"
  by (cases s) (simp_all add: non_decimal_def Let_def)

lemma non_decimal_digits: "list_all is_digit a \<Longrightarrow> a \<noteq> [] \<Longrightarrow> non_decimal (a @ t) = None \<or> (\<exists>z. a = [z])"
proof -
  assume a: "list_all is_digit a" "a \<noteq> []"
  show ?thesis
  proof (cases a)
    case Nil
    with a show ?thesis by simp
  next
    case (Cons z rest)
    show ?thesis
    proof (cases rest)
      case Nil
      with Cons show ?thesis by simp
    next
      case (Cons m ds)
      with a \<open>a = z # rest\<close> have "\<not> radix_mark m"
        by (simp add: digit_no_mark)
      with Cons \<open>a = z # rest\<close> show ?thesis
        by (simp add: non_decimal_unmarked)
    qed
  qed
qed

lemma takeWhile_digits: "list_all is_digit a \<Longrightarrow> \<not> is_digit c \<Longrightarrow> takeWhile is_digit (a @ c # t) = a"
  by (simp add: list_all_iff takeWhile_tail)

lemma dropWhile_digits: "list_all is_digit a \<Longrightarrow> \<not> is_digit c \<Longrightarrow> dropWhile is_digit (a @ c # t) = c # t"
  by (simp add: list_all_iff)

lemma takeWhile_all_digits: "list_all is_digit a \<Longrightarrow> takeWhile is_digit a = a"
  by (simp add: list_all_iff)

lemma dropWhile_all_digits: "list_all is_digit a \<Longrightarrow> dropWhile is_digit a = []"
  by (simp add: list_all_iff)

lemma point_no_digit: "\<not> is_digit (CHR ''.'')" "\<not> is_digit (CHR ''-'')"
  by (simp_all add: is_digit_def)

lemma not_Infinity_point: "a @ CHR ''.'' # b \<noteq> ''Infinity''"
proof
  assume "a @ CHR ''.'' # b = ''Infinity''"
  then have "CHR ''.'' \<in> set ''Infinity''"
    by (metis in_set_conv_decomp)
  then show False by simp
qed

lemma not_Infinity_digits: "list_all is_digit a \<Longrightarrow> a \<noteq> ''Infinity''"
  by (auto simp: is_digit_def)

lemma parse_unsigned_fraction:
  assumes "list_all is_digit a" "list_all is_digit b" "b \<noteq> []"
  shows "parse_unsigned_decimal (a @ CHR ''.'' # b)
           = Fin (real (digits_val a) + real (digits_val b) / 10 ^ length b)"
  using assms
  by (simp add: parse_unsigned_decimal_def not_Infinity_point takeWhile_digits dropWhile_digits
      point_no_digit takeWhile_all_digits dropWhile_all_digits parse_exponent_def scale10_def
      Let_def)

lemma parse_unsigned_integer:
  assumes "list_all is_digit a" "a \<noteq> []"
  shows "parse_unsigned_decimal a = Fin (real (digits_val a))"
  using assms
  by (simp add: parse_unsigned_decimal_def not_Infinity_digits takeWhile_all_digits
      dropWhile_all_digits parse_exponent_def scale10_def Let_def digits_val_def)

lemma parse_unsigned_broken:
  assumes "list_all is_digit a" "list_all is_digit z"
  shows "parse_unsigned_decimal (a @ CHR ''.'' # z @ CHR ''-'' # t) = NaN"
  using assms
  by (simp add: parse_unsigned_decimal_def not_Infinity_point takeWhile_digits dropWhile_digits
      point_no_digit parse_exponent_def Let_def)


lemma digits_ends:
  assumes "list_all is_digit a" "a \<noteq> []"
  shows "is_digit (hd a)" "is_digit (last a)"
  using assms by (auto simp: list_all_iff)

lemma minus_no_space: "\<not> is_ws (CHR ''-'')" "\<not> is_ws (CHR ''0'')"
  by (simp_all add: is_ws_def)

lemma Number_of_digits:
  assumes "list_all is_digit a" "a \<noteq> []"
  shows "Number_of_string a = Fin (real (digits_val a))"
    and "Number_of_string (CHR ''-'' # a) = Fin (- real (digits_val a))"
proof -
  note ends = digits_ends[OF assms]
  have t1: "trim a = a"
    using assms ends digit_not_special by (simp add: trim_id)
  have "non_decimal a = None"
    using non_decimal_digits[OF assms, of "[]"] non_decimal_short by auto
  moreover have "parse_decimal a = parse_unsigned_decimal a"
    using assms ends(1) digit_not_special by (cases a) (auto simp: parse_decimal_def)
  ultimately show "Number_of_string a = Fin (real (digits_val a))"
    using assms t1 by (simp add: Number_of_string_def parse_unsigned_integer)
  have t2: "trim (CHR ''-'' # a) = CHR ''-'' # a"
    using assms ends digit_not_special minus_no_space by (simp add: trim_id)
  show "Number_of_string (CHR ''-'' # a) = Fin (- real (digits_val a))"
    using assms
    by (simp add: Number_of_string_def t2 non_decimal_minus parse_decimal_def
        parse_unsigned_integer)
qed

lemma Number_of_fraction:
  assumes a: "list_all is_digit a" "a \<noteq> []" and b: "list_all is_digit b" "b \<noteq> []"
  shows "Number_of_string (a @ CHR ''.'' # b)
           = Fin (real (digits_val a) + real (digits_val b) / 10 ^ length b)"
proof -
  let ?s = "a @ CHR ''.'' # b"
  have "hd ?s = hd a" "last ?s = last b"
    using a b by simp_all
  then have t: "trim ?s = ?s"
    using digits_ends[OF a] digits_ends[OF b] digit_not_special by (simp add: trim_id)
  have nd: "non_decimal ?s = None"
    using non_decimal_digits[OF a, of "CHR ''.'' # b"] point_no_mark
    by (auto simp: non_decimal_unmarked)
  have "parse_decimal ?s = parse_unsigned_decimal ?s"
    using a digits_ends(1)[OF a] digit_not_special by (cases a) (auto simp: parse_decimal_def)
  then show ?thesis
    using t nd by (simp add: Number_of_string_def parse_unsigned_fraction[OF a(1) b])
qed

lemma Number_of_negative_fraction:
  assumes a: "list_all is_digit a" and b: "list_all is_digit b" "b \<noteq> []"
  shows "Number_of_string (CHR ''-'' # a @ CHR ''.'' # b)
           = Fin (- (real (digits_val a) + real (digits_val b) / 10 ^ length b))"
proof -
  let ?s = "CHR ''-'' # a @ CHR ''.'' # b"
  have "last ?s = last b"
    using b by simp
  then have t: "trim ?s = ?s"
    using digits_ends[OF b] digit_not_special minus_no_space by (simp add: trim_id)
  show ?thesis
    by (simp add: Number_of_string_def t non_decimal_minus parse_decimal_def
        parse_unsigned_fraction[OF a b])
qed

lemma Number_of_broken:
  assumes z: "list_all is_digit z" and t: "list_all is_digit t"
  shows "Number_of_string (CHR ''0'' # CHR ''.'' # z @ CHR ''-'' # t) = NaN"
proof -
  let ?s = "CHR ''0'' # CHR ''.'' # z @ CHR ''-'' # t"
  have "\<not> is_ws (last ?s)"
    using t digit_not_special minus_no_space by (cases "t = []") (auto simp: list_all_iff)
  then have tr: "trim ?s = ?s"
    using minus_no_space by (simp add: trim_id)
  have nd: "non_decimal ?s = None"
    using point_no_mark by (simp add: non_decimal_unmarked)
  have "parse_unsigned_decimal ([CHR ''0''] @ CHR ''.'' # z @ CHR ''-'' # t) = NaN"
    by (rule parse_unsigned_broken) (simp_all add: zero_is_digit z)
  then show ?thesis
    by (simp add: Number_of_string_def tr nd parse_decimal_def)
qed


section \<open>The way back\<close>

lemma fromAtomic_no_decimals: "fromAtomicToNumber (JBN z) 0 = Inr (Fin (real_of_int z))"
  using Number_of_digits[OF show_nat_digits show_nat_not_Nil]
  by (simp add: fromAtomicToNumber_def show_int_def show_nat_val)

lemma fromAtomic_nonneg:
  assumes "0 \<le> z" "0 < d"
  shows "fromAtomicToNumber (JBN z) d = Inr (Fin (real_of_int z / 10 ^ nat d))"
proof -
  define pad where "pad = padStart (show_nat (nat z)) (d + 1)"
  define k where "k = length pad - nat d"
  have len: "nat d < length pad"
    using assms by (simp add: pad_def padStart_length)
  have digits: "list_all is_digit pad"
    by (simp add: pad_def padStart_digits show_nat_digits)
  have val: "digits_val pad = nat z"
    by (simp add: pad_def padStart_val show_nat_val)
  have a: "list_all is_digit (take k pad)" "take k pad \<noteq> []"
    using digits len by (auto simp: list_all_iff k_def dest: in_set_takeD)
  have b: "list_all is_digit (drop k pad)" "drop k pad \<noteq> []" "length (drop k pad) = nat d"
    using digits len assms by (auto simp: list_all_iff k_def dest: in_set_dropD)
  have "digits_val (take k pad @ drop k pad)
      = digits_val (take k pad) * 10 ^ nat d + digits_val (drop k pad)"
    by (simp only: digits_val_append b(3))
  then have split: "real (nat z)
      = real (digits_val (take k pad)) * 10 ^ nat d + real (digits_val (drop k pad))"
    using val by simp
  have idx: "slice pad 0 (- d) = take k pad" "slice_from pad (- d) = drop k pad"
    using assms len by (simp_all add: slice_def slice_from_def slice_index_def k_def nat_diff_distrib')
  have "Number_of_string (take k pad @ CHR ''.'' # drop k pad)
      = Fin (real (digits_val (take k pad)) + real (digits_val (drop k pad)) / 10 ^ nat d)"
    using Number_of_fraction[OF a b(1,2)] b(3) by simp
  also have "\<dots> = Fin (real_of_int z / 10 ^ nat d)"
    using split assms(1) by (simp add: field_simps)
  finally show ?thesis
    using assms by (simp add: fromAtomicToNumber_def show_int_def Let_def pad_def[symmetric] idx)
qed


lemma fromAtomic_negative_long:
  assumes "z < 0" "0 < d" "nat d \<le> length (show_nat (nat (- z)))"
  shows "fromAtomicToNumber (JBN z) d = Inr (Fin (real_of_int z / 10 ^ nat d))"
proof -
  define ds where "ds = show_nat (nat (- z))"
  define k where "k = length ds - nat d"
  have digits: "list_all is_digit ds"
    by (simp add: ds_def show_nat_digits)
  have val: "digits_val ds = nat (- z)"
    by (simp add: ds_def show_nat_val)
  have len: "nat d \<le> length ds"
    using assms(3) by (simp add: ds_def)
  have pad: "padStart (CHR ''-'' # ds) (d + 1) = CHR ''-'' # ds"
    using len assms(2) by (simp add: padStart_def)
  have a: "list_all is_digit (take k ds)"
    using digits by (auto simp: list_all_iff dest: in_set_takeD)
  have b: "list_all is_digit (drop k ds)" "drop k ds \<noteq> []" "length (drop k ds) = nat d"
    using digits len assms(2) by (auto simp: list_all_iff k_def dest: in_set_dropD)
  have "digits_val (take k ds @ drop k ds)
      = digits_val (take k ds) * 10 ^ nat d + digits_val (drop k ds)"
    by (simp only: digits_val_append b(3))
  then have split: "real (nat (- z))
      = real (digits_val (take k ds)) * 10 ^ nat d + real (digits_val (drop k ds))"
    using val by simp
  have idx: "slice (CHR ''-'' # ds) 0 (- d) = CHR ''-'' # take k ds"
    "slice_from (CHR ''-'' # ds) (- d) = drop k ds"
    using assms(2) len
    by (simp_all add: slice_def slice_from_def slice_index_def k_def nat_diff_distrib' Suc_diff_le
        nat_add_distrib)
  have "Number_of_string (CHR ''-'' # take k ds @ CHR ''.'' # drop k ds)
      = Fin (- (real (digits_val (take k ds)) + real (digits_val (drop k ds)) / 10 ^ nat d))"
    using Number_of_negative_fraction[OF a b(1,2)] b(3) by simp
  also have "\<dots> = Fin (real_of_int z / 10 ^ nat d)"
  proof -
    define P :: real where "P = 10 ^ nat d"
    have P: "0 < P" by (simp add: P_def)
    have zeq: "real_of_int z
        = - (real (digits_val (take k ds)) * P + real (digits_val (drop k ds)))"
      using split assms(1) by (simp add: P_def)
    have "- (real (digits_val (take k ds)) + real (digits_val (drop k ds)) / P)
        = - (real (digits_val (take k ds)) * P + real (digits_val (drop k ds))) / P"
      using P by (simp add: field_simps)
    then have "- (real (digits_val (take k ds)) + real (digits_val (drop k ds)) / P)
        = real_of_int z / P"
      by (simp only: zeq)
    then show ?thesis by (simp add: P_def)
  qed
  finally show ?thesis
    using assms(1,2)
    by (simp add: fromAtomicToNumber_def show_int_def Let_def ds_def[symmetric] pad idx)
qed

lemma fromAtomic_negative_short:
  assumes "z < 0" "0 < d" "length (show_nat (nat (- z))) < nat d"
  shows "fromAtomicToNumber (JBN z) d = Inr NaN"
proof -
  define ds where "ds = show_nat (nat (- z))"
  define j where "j = nat d - Suc (length ds)"
  have digits: "list_all is_digit ds"
    by (simp add: ds_def show_nat_digits)
  have len: "length ds < nat d"
    using assms(3) by (simp add: ds_def)
  then have count: "nat (d + 1) - length (CHR ''-'' # ds) = Suc j"
    using assms(2) by (simp add: j_def nat_add_distrib)
  have pad: "padStart (CHR ''-'' # ds) (d + 1)
      = CHR ''0'' # replicate j (CHR ''0'') @ CHR ''-'' # ds"
    unfolding padStart_def count by simp
  have total: "length (padStart (CHR ''-'' # ds) (d + 1)) = Suc (nat d)"
    using len by (simp add: pad j_def)
  have idx: "slice (padStart (CHR ''-'' # ds) (d + 1)) 0 (- d) = [CHR ''0'']"
    "slice_from (padStart (CHR ''-'' # ds) (d + 1)) (- d) = replicate j (CHR ''0'') @ CHR ''-'' # ds"
    using assms(2) total
    by (simp_all add: slice_def slice_from_def slice_index_def nat_diff_distrib' nat_add_distrib)
       (simp_all add: pad)
  have zeros: "list_all is_digit (replicate j (CHR ''0''))"
    by (simp add: list_all_iff zero_is_digit)
  show ?thesis
    using assms(1,2) Number_of_broken[OF zeros digits]
    by (simp add: fromAtomicToNumber_def show_int_def Let_def ds_def[symmetric] idx)
qed


section \<open>Atomic units and back\<close>

lemma atomic_units_nonneg: "0 \<le> atomic_units x d"
  by (simp add: atomic_units_def)

lemma rounded_to_near: "\<bar>rounded_to x d - x\<bar> \<le> 1 / (2 * 10 ^ nat d)"
proof -
  define P :: real where "P = 10 ^ nat d"
  define n where "n = real_of_int (atomic_units x d)"
  have P: "0 < P" by (simp add: P_def)
  have "n \<le> \<bar>x\<bar> * P + 1 / 2" "\<bar>x\<bar> * P + 1 / 2 < n + 1"
    unfolding n_def atomic_units_def P_def by linarith+
  then have half: "\<bar>n - \<bar>x\<bar> * P\<bar> \<le> 1 / 2"
    by linarith
  have "\<bar>n - \<bar>x\<bar> * P\<bar> / P \<le> (1 / 2) / P"
    by (rule divide_right_mono[OF half]) (simp add: P less_imp_le)
  moreover have "\<bar>n - \<bar>x\<bar> * P\<bar> / P = \<bar>n / P - \<bar>x\<bar>\<bar>"
  proof -
    have "n / P - \<bar>x\<bar> = (n - \<bar>x\<bar> * P) / P"
      using P by (simp add: field_simps)
    then have "\<bar>n / P - \<bar>x\<bar>\<bar> = \<bar>n - \<bar>x\<bar> * P\<bar> / \<bar>P\<bar>"
      by (simp only: abs_divide)
    with P show ?thesis by simp
  qed
  ultimately have near: "\<bar>n / P - \<bar>x\<bar>\<bar> \<le> 1 / (2 * P)"
    by simp
  show ?thesis
  proof (cases "x < 0")
    case True
    then have "rounded_to x d - x = - (n / P - \<bar>x\<bar>)"
      by (simp add: rounded_to_def n_def P_def)
    then have "\<bar>rounded_to x d - x\<bar> = \<bar>n / P - \<bar>x\<bar>\<bar>"
      by (simp only: abs_minus_cancel)
    with near show ?thesis by (simp add: P_def)
  next
    case False
    then have "rounded_to x d - x = n / P - \<bar>x\<bar>"
      by (simp add: rounded_to_def n_def P_def)
    with near show ?thesis by (simp add: P_def)
  qed
qed

lemma round_trip_nonneg:
  assumes "0 \<le> d" "d \<le> 100" "\<bar>x\<bar> < 10 ^ 21" "0 \<le> x"
  shows "round_trip (Fin x) d = Inr (Fin (rounded_to x d))"
proof (cases "d = 0")
  case True
  with assms show ?thesis
    by (simp add: round_trip_def toAtomicBN_finite fromAtomic_no_decimals rounded_to_def
        atomic_units_def)
next
  case False
  with assms have "0 < d" by simp
  from fromAtomic_nonneg[OF atomic_units_nonneg this, of x] assms show ?thesis
    by (simp add: round_trip_def toAtomicBN_finite rounded_to_def atomic_units_def)
qed

lemma round_trip_negative:
  assumes "0 \<le> d" "d \<le> 100" "\<bar>x\<bar> < 10 ^ 21" "x < 0"
  shows "d = 0 \<or> atomic_units x d = 0 \<or> nat d \<le> length (show_nat (nat (atomic_units x d)))
           \<Longrightarrow> round_trip (Fin x) d = Inr (Fin (rounded_to x d))"
    and "0 < d \<Longrightarrow> atomic_units x d \<noteq> 0 \<Longrightarrow> length (show_nat (nat (atomic_units x d))) < nat d
           \<Longrightarrow> round_trip (Fin x) d = Inr NaN"
proof -
  have ret: "round_trip (Fin x) d = fromAtomicToNumber (JBN (- atomic_units x d)) d"
    using assms by (simp add: round_trip_def toAtomicBN_finite atomic_units_def)
  have target: "rounded_to x d = real_of_int (- atomic_units x d) / 10 ^ nat d"
    using assms(4) by (simp add: rounded_to_def)
  show "round_trip (Fin x) d = Inr (Fin (rounded_to x d))"
    if "d = 0 \<or> atomic_units x d = 0 \<or> nat d \<le> length (show_nat (nat (atomic_units x d)))"
  proof (cases "d = 0")
    case True
    then show ?thesis
      unfolding ret target by (simp add: fromAtomic_no_decimals)
  next
    case False
    with assms have d: "0 < d" by simp
    show ?thesis
    proof (cases "atomic_units x d = 0")
      case True
      with fromAtomic_nonneg[OF _ d, of 0] show ?thesis
        unfolding ret target by simp
    next
      case False
      with atomic_units_nonneg[of x d] have neg: "- atomic_units x d < 0" by linarith
      from that \<open>d \<noteq> 0\<close> False
      have "nat d \<le> length (show_nat (nat (- (- atomic_units x d))))" by simp
      from fromAtomic_negative_long[OF neg d this] show ?thesis
        unfolding ret target .
    qed
  qed
  show "round_trip (Fin x) d = Inr NaN"
    if d: "0 < d" and nz: "atomic_units x d \<noteq> 0"
      and short: "length (show_nat (nat (atomic_units x d))) < nat d"
  proof -
    from nz atomic_units_nonneg[of x d] have neg: "- atomic_units x d < 0" by linarith
    from short have "length (show_nat (nat (- (- atomic_units x d)))) < nat d" by simp
    from fromAtomic_negative_short[OF neg d this] show ?thesis
      unfolding ret .
  qed
qed

lemma round_trip_rejects:
  "d < 0 \<or> 100 < d \<Longrightarrow> round_trip y d = Inl RangeError"
  "0 \<le> d \<Longrightarrow> d \<le> 100 \<Longrightarrow> \<not> isFinite y \<Longrightarrow> round_trip y d = Inl InvalidCharacter"
  "0 \<le> d \<Longrightarrow> d \<le> 100 \<Longrightarrow> 10 ^ 21 \<le> \<bar>r\<bar> \<Longrightarrow> round_trip (Fin r) d = Inl InvalidCharacter"
proof -
  show "round_trip y d = Inl RangeError" if "d < 0 \<or> 100 < d"
    using that by (auto simp: round_trip_def toAtomicBN_def toFixed_def)
  show "round_trip y d = Inl InvalidCharacter" if "0 \<le> d" "d \<le> 100" "\<not> isFinite y"
    using that
    by (cases y)
       (simp_all add: round_trip_def toAtomicBN_def toFixed_def BN_of_string_def is_ws_def
          is_digit_def)
  show "round_trip (Fin r) d = Inl InvalidCharacter" if "0 \<le> d" "d \<le> 100" "10 ^ 21 \<le> \<bar>r\<bar>"
    using that by (simp add: round_trip_def toAtomicBN_def toFixed_def)
qed


text \<open>
  Claim C5, as amended. Let \<open>0 \<le> d \<le> 100\<close> and \<open>|x| < 10^21\<close>. For \<open>x \<ge> 0\<close> the
  conversion to atomic units at \<open>d\<close> decimals and back gives \<open>x\<close> rounded to \<open>d\<close>
  decimal places, which lies within half a unit of the last place of \<open>x\<close>. For
  \<open>x < 0\<close> it gives the same when \<open>d = 0\<close>, when \<open>x\<close> rounds to zero, or when the
  rounded magnitude in atomic units has at least \<open>d\<close> digits; a negative amount whose
  magnitude has fewer digits comes back as \<^verbatim>\<open>NaN\<close>, because the zeros are padded in
  front of the minus sign. Outside this range the conversion raises an error: a
  \<^verbatim>\<open>RangeError\<close> for \<open>d\<close> outside \<open>0..100\<close>, and an invalid character for an amount that
  is not finite or is \<open>10^21\<close> or more in magnitude.
\<close>

theorem atomic_round_trip:
  "(0 \<le> d \<and> d \<le> 100 \<and> \<bar>x\<bar> < 10 ^ 21 \<and> 0 \<le> x \<longrightarrow>
      round_trip (Fin x) d = Inr (Fin (rounded_to x d)))
 \<and> (0 \<le> d \<and> d \<le> 100 \<and> \<bar>x\<bar> < 10 ^ 21 \<and> x < 0
      \<and> (d = 0 \<or> atomic_units x d = 0
           \<or> nat d \<le> length (show_nat (nat (atomic_units x d)))) \<longrightarrow>
      round_trip (Fin x) d = Inr (Fin (rounded_to x d)))
 \<and> (0 < d \<and> d \<le> 100 \<and> \<bar>x\<bar> < 10 ^ 21 \<and> x < 0
      \<and> atomic_units x d \<noteq> 0
      \<and> length (show_nat (nat (atomic_units x d))) < nat d \<longrightarrow>
      round_trip (Fin x) d = Inr NaN)
 \<and> \<bar>rounded_to x d - x\<bar> \<le> 1 / (2 * 10 ^ nat d)
 \<and> (d < 0 \<or> 100 < d \<longrightarrow> round_trip y d = Inl RangeError)
 \<and> (0 \<le> d \<and> d \<le> 100 \<and> (\<not> isFinite y \<or> (\<exists>r. y = Fin r \<and> 10 ^ 21 \<le> \<bar>r\<bar>)) \<longrightarrow>
      round_trip y d = Inl InvalidCharacter)"
proof -
  have c1: "0 \<le> d \<and> d \<le> 100 \<and> \<bar>x\<bar> < 10 ^ 21 \<and> 0 \<le> x \<longrightarrow>
      round_trip (Fin x) d = Inr (Fin (rounded_to x d))"
    using round_trip_nonneg by blast
  have c2: "0 \<le> d \<and> d \<le> 100 \<and> \<bar>x\<bar> < 10 ^ 21 \<and> x < 0
      \<and> (d = 0 \<or> atomic_units x d = 0
           \<or> nat d \<le> length (show_nat (nat (atomic_units x d)))) \<longrightarrow>
      round_trip (Fin x) d = Inr (Fin (rounded_to x d))"
    using round_trip_negative(1) by blast
  have c3: "0 < d \<and> d \<le> 100 \<and> \<bar>x\<bar> < 10 ^ 21 \<and> x < 0
      \<and> atomic_units x d \<noteq> 0
      \<and> length (show_nat (nat (atomic_units x d))) < nat d \<longrightarrow>
      round_trip (Fin x) d = Inr NaN"
  proof (intro impI, elim conjE)
    assume "0 < d" "d \<le> 100" "\<bar>x\<bar> < 10 ^ 21" "x < 0" "atomic_units x d \<noteq> 0"
      "length (show_nat (nat (atomic_units x d))) < nat d"
    then show "round_trip (Fin x) d = Inr NaN"
      using round_trip_negative(2)[of d x] by linarith
  qed
  have c4: "d < 0 \<or> 100 < d \<longrightarrow> round_trip y d = Inl RangeError"
    using round_trip_rejects(1) by blast
  have c5: "0 \<le> d \<and> d \<le> 100 \<and> (\<not> isFinite y \<or> (\<exists>r. y = Fin r \<and> 10 ^ 21 \<le> \<bar>r\<bar>)) \<longrightarrow>
      round_trip y d = Inl InvalidCharacter"
    using round_trip_rejects(2,3) by blast
  show ?thesis
    by (intro conjI) (fact c1 c2 c3 c4 c5 rounded_to_near)+
qed

theorem atomic_round_trip_witness:
  "round_trip (Fin (2469 / 200)) 2 = Inr (Fin (247 / 20))
 \<and> round_trip (Fin (- (617 / 50))) 2 = Inr (Fin (- (617 / 50)))
 \<and> atomic_units (- (1 / 20)) 2 = 5 \<and> length (show_nat 5) = 1
 \<and> round_trip (Fin (- (1 / 20))) 2 = Inr NaN
 \<and> round_trip (Fin 1) 101 = Inl RangeError
 \<and> round_trip PInf 6 = Inl InvalidCharacter"
proof -
  have u1: "atomic_units (2469 / 200) 2 = 1235"
    and u2: "atomic_units (- (617 / 50)) 2 = 1234"
    and u3: "atomic_units (- (1 / 20)) 2 = 5"
    by (simp_all add: atomic_units_def)
  have l2: "length (show_nat 1234) = 4" and l3: "length (show_nat 5) = 1"
    by (simp_all add: show_nat_numeral show_nat_small)
  have w1: "round_trip (Fin (2469 / 200)) 2 = Inr (Fin (247 / 20))"
    using atomic_round_trip[of 2 "2469 / 200", THEN conjunct1]
    by (simp add: rounded_to_def u1)
  have w2: "round_trip (Fin (- (617 / 50))) 2 = Inr (Fin (- (617 / 50)))"
    using atomic_round_trip[of 2 "- (617 / 50)", THEN conjunct2, THEN conjunct1]
    by (simp add: rounded_to_def u2 l2)
  have w3: "round_trip (Fin (- (1 / 20))) 2 = Inr NaN"
    using atomic_round_trip[of 2 "- (1 / 20)", THEN conjunct2, THEN conjunct2, THEN conjunct1]
    by (simp add: u3 l3)
  have w4: "round_trip (Fin 1) 101 = Inl RangeError"
    using atomic_round_trip[of 101 0 "Fin 1"] by simp
  have w5: "round_trip PInf 6 = Inl InvalidCharacter"
    using atomic_round_trip[of 6 0 PInf] by simp
  from w1 w2 u3 l3 w3 w4 w5 show ?thesis by simp
qed

text \<open>
  The claim as first stated fails for a small negative amount: \<open>-0.05\<close> at two decimals
  becomes \<open>-5\<close> atomic units, which is padded to \<^verbatim>\<open>0-5\<close> and read back from
  \<^verbatim>\<open>0.-5\<close>: the result is \<^verbatim>\<open>NaN\<close>, not \<open>-0.05\<close>.
\<close>

theorem small_negative_amount_lost:
  "toAtomicBN (Fin (- (1 / 20))) 2 = Inr (- 5)
 \<and> fromAtomicToNumber (JBN (- 5)) 2 = Inr NaN
 \<and> round_trip (Fin (- (1 / 20))) 2 \<noteq> Inr (Fin (- (1 / 20)))"
proof -
  have there: "toAtomicBN (Fin (- (1 / 20))) 2 = Inr (- 5)"
    by (simp add: amount_defs number_defs)
  have again: "fromAtomicToNumber (JBN (- 5)) 2 = Inr NaN"
    by (simp add: amount_defs number_defs)
  from there again show ?thesis
    by (simp add: round_trip_def)
qed

end
